theory Spec2Isabelle
  imports Complex_Main
begin

section \<open>DomainSale: the "_for-sale" TXT record library\<close>

text \<open>
  A shallow embedding of \<^verbatim>\<open>src/domainsale\<close>: the validator (\<^verbatim>\<open>validator.py\<close>), the TTL
  cache (\<^verbatim>\<open>cache.py\<close>), the resolver (\<^verbatim>\<open>resolver.py\<close>), the HTML renderer
  (\<^verbatim>\<open>renderer.py\<close>) and the facade (\<^verbatim>\<open>api.py\<close>).

  A Python \<^verbatim>\<open>str\<close> is modelled by its UTF-8 encoding, a \<^typ>\<open>string\<close> of bytes, so that
  \<^verbatim>\<open>len(s.encode('utf-8'))\<close> is \<^term>\<open>length s\<close>. Every delimiter the code looks for is
  ASCII, and an ASCII byte never occurs inside the encoding of another code point, so
  prefix tests, \<^verbatim>\<open>find\<close>, \<^verbatim>\<open>replace\<close> and slicing behind an ASCII prefix agree with Python's.

  Exceptions are values of \<^verbatim>\<open>exc\<close>, named after the Python classes; a function that can
  raise returns \<^verbatim>\<open>exc + 'a\<close> with \<^term>\<open>Inl\<close> for the raised exception. The text of an
  exception's message is not modelled.
\<close>

subsection \<open>Exceptions (\<^verbatim>\<open>exceptions.py\<close> and the library classes the code meets)\<close>

datatype exc =
    DNSSECValidationError
  | SchemaValidationError
  | FieldValidationError
  | SizeExceededError
  | RDAPError
  | TimeoutError
  | JSONDecodeError
  | RecursionError
  | TypeError
  | ValueError
  | OverflowError
  | UnicodeDecodeError
  | NoAnswer
  | NXDOMAIN
  | ResolverTimeout
  | ValidationFailure
  | RequestsTimeout
  | OtherException string

subsection \<open>Python values produced by \<^verbatim>\<open>json.loads\<close>\<close>

text \<open>
  A \<^verbatim>\<open>dict\<close> is an association list with distinct keys in insertion order. A float is
  kept as the text it was read from (its value is never inspected by the code).
\<close>

datatype pyval =
    PNone
  | PBool bool
  | PInt int
  | PFloat string
  | PStr string
  | PList "pyval list"
  | PDict "(string \<times> pyval) list"

type_synonym pydict = "(string \<times> pyval) list"

text \<open>\<^verbatim>\<open>d[k] = v\<close>: an existing key keeps its position and takes the new value.\<close>

fun dict_set :: "pydict \<Rightarrow> string \<Rightarrow> pyval \<Rightarrow> pydict" where
  "dict_set [] k v = [(k, v)]"
| "dict_set ((k', v') # d) k v = (if k' = k then (k, v) # d else (k', v') # dict_set d k v)"

text \<open>\<^verbatim>\<open>dict(pairs)\<close>: the pairs are inserted from left to right.\<close>

definition dict_of_pairs :: "(string \<times> pyval) list \<Rightarrow> pydict" where
  "dict_of_pairs pairs = foldl (\<lambda>d (k, v). dict_set d k v) [] pairs"

text \<open>\<^verbatim>\<open>d.get(k)\<close>, with \<^term>\<open>None\<close> for Python's \<^verbatim>\<open>None\<close> of a missing key.\<close>

definition dict_get :: "pydict \<Rightarrow> string \<Rightarrow> pyval option" where
  "dict_get d k = map_of d k"

definition dict_keys :: "pydict \<Rightarrow> string list" where
  "dict_keys d = map fst d"

subsection \<open>Characters\<close>

definition DQUOTE :: char where "DQUOTE = CHR 0x22"
definition BACKSLASH :: char where "BACKSLASH = CHR 0x5C"

definition is_digit :: "char \<Rightarrow> bool" where
  "is_digit c = (c \<in> set ''0123456789'')"

definition is_upper :: "char \<Rightarrow> bool" where
  "is_upper c = (c \<in> set ''ABCDEFGHIJKLMNOPQRSTUVWXYZ'')"

definition is_lower :: "char \<Rightarrow> bool" where
  "is_lower c = (c \<in> set ''abcdefghijklmnopqrstuvwxyz'')"

text \<open>\<^verbatim>\<open>WHITESPACE_STR = ' \t\n\r'\<close> of \<^verbatim>\<open>json/decoder.py\<close>.\<close>

definition is_ws :: "char \<Rightarrow> bool" where
  "is_ws c = (c = CHR '' '' \<or> c = CHR 0x09 \<or> c = CHR 0x0A \<or> c = CHR 0x0D)"

definition skip_ws :: "string \<Rightarrow> string" where
  "skip_ws s = dropWhile is_ws s"

definition digit_val :: "char \<Rightarrow> nat" where
  "digit_val c = of_char c - 48"

definition hex_val :: "char \<Rightarrow> nat option" where
  "hex_val c =
     (if is_digit c then Some (of_char c - 48)
      else if c \<in> set ''abcdef'' then Some (of_char c - 87)
      else if c \<in> set ''ABCDEF'' then Some (of_char c - 55)
      else None)"

text \<open>\<^verbatim>\<open>chr(u)\<close> in the byte model: the UTF-8 encoding of the code point.\<close>

definition utf8_encode :: "nat \<Rightarrow> string" where
  "utf8_encode u =
     (if u < 0x80 then [char_of u]
      else if u < 0x800 then [char_of (0xC0 + u div 64), char_of (0x80 + u mod 64)]
      else if u < 0x10000 then
        [char_of (0xE0 + u div 4096), char_of (0x80 + (u div 64) mod 64), char_of (0x80 + u mod 64)]
      else
        [char_of (0xF0 + u div 262144), char_of (0x80 + (u div 4096) mod 64),
         char_of (0x80 + (u div 64) mod 64), char_of (0x80 + u mod 64)])"

subsection \<open>\<^verbatim>\<open>json.loads\<close> (CPython's decoder, \<^verbatim>\<open>json/decoder.py\<close> and \<^verbatim>\<open>json/scanner.py\<close>)\<close>

text \<open>
  The decoder is library code; it is modelled function by function because the validator's
  answer depends on what it accepts. An index into the document becomes the rest of the
  document from that index on. Every \<^verbatim>\<open>StopIteration\<close> of the scanner is turned into a
  \<^verbatim>\<open>JSONDecodeError\<close> by its caller, so the model raises \<^term>\<open>JSONDecodeError\<close> at once.
\<close>

text \<open>\<^verbatim>\<open>_decode_uXXXX\<close>: four hexadecimal digits.\<close>

definition decode_uXXXX :: "string \<Rightarrow> nat option" where
  "decode_uXXXX s =
     (case map hex_val (take 4 s) of
        [Some a, Some b, Some c, Some d] \<Rightarrow> Some (((a * 16 + b) * 16 + c) * 16 + d)
      | _ \<Rightarrow> None)"

text \<open>\<^verbatim>\<open>BACKSLASH\<close>, the table of one-letter escapes.\<close>

definition backslash_table :: "char \<Rightarrow> char option" where
  "backslash_table c =
     (if c = DQUOTE then Some DQUOTE
      else if c = BACKSLASH then Some BACKSLASH
      else if c = CHR ''/'' then Some CHR ''/''
      else if c = CHR ''b'' then Some (CHR 0x08)
      else if c = CHR ''f'' then Some (CHR 0x0C)
      else if c = CHR ''n'' then Some (CHR 0x0A)
      else if c = CHR ''r'' then Some (CHR 0x0D)
      else if c = CHR ''t'' then Some (CHR 0x09)
      else None)"

definition prepend :: "string \<Rightarrow> exc + (string \<times> string) \<Rightarrow> exc + (string \<times> string)" where
  "prepend chunk r = (case r of Inl e \<Rightarrow> Inl e | Inr (content, rest) \<Rightarrow> Inr (chunk @ content, rest))"

text \<open>
  \<^verbatim>\<open>scanstring(s, end, strict=True)\<close>, called behind the opening quote: the decoded
  string and the rest behind the closing quote.
\<close>

function scanstring :: "string \<Rightarrow> exc + (string \<times> string)" where
  "scanstring [] = Inl JSONDecodeError"
| "scanstring (c # s) =
     (if c = DQUOTE then Inr ([], s)
      else if c = BACKSLASH then
        (case s of
           [] \<Rightarrow> Inl JSONDecodeError
         | esc # s' \<Rightarrow>
             if esc \<noteq> CHR ''u'' then
               (case backslash_table esc of
                  None \<Rightarrow> Inl JSONDecodeError
                | Some ch \<Rightarrow> prepend [ch] (scanstring s'))
             else
               (case decode_uXXXX s' of
                  None \<Rightarrow> Inl JSONDecodeError
                | Some uni \<Rightarrow>
                    if 0xD800 \<le> uni \<and> uni \<le> 0xDBFF \<and> take 2 (drop 4 s') = [BACKSLASH, CHR ''u''] then
                      (case decode_uXXXX (drop 6 s') of
                         None \<Rightarrow> Inl JSONDecodeError
                       | Some uni2 \<Rightarrow>
                           if 0xDC00 \<le> uni2 \<and> uni2 \<le> 0xDFFF then
                             prepend (utf8_encode (0x10000 + ((uni - 0xD800) * 1024 + (uni2 - 0xDC00))))
                               (scanstring (drop 10 s'))
                           else prepend (utf8_encode uni) (scanstring (drop 4 s')))
                    else prepend (utf8_encode uni) (scanstring (drop 4 s'))))
      else if (of_char c :: nat) < 0x20 then Inl JSONDecodeError
      else prepend [c] (scanstring s))"
  by pat_completeness auto
termination
  by (relation "measure length") (auto split: list.splits)

text \<open>
  \<^verbatim>\<open>NUMBER_RE = (-?(?:0|[1-9][0-9]*))(\.[0-9]+)?([eE][-+]?[0-9]+)?\<close>, matched at the
  start of the text: the three groups and the rest, or \<^term>\<open>None\<close>.
\<close>

definition match_integer :: "string \<Rightarrow> (string \<times> string) option" where
  "match_integer s =
     (let (sign, r) = (if take 1 s = ''-'' then (''-'', drop 1 s) else ('''', s))
      in case r of
           [] \<Rightarrow> None
         | d # r' \<Rightarrow>
             if d = CHR ''0'' then Some (sign @ ''0'', r')
             else if is_digit d then Some (sign @ d # takeWhile is_digit r', dropWhile is_digit r')
             else None)"

definition match_frac :: "string \<Rightarrow> string \<times> string" where
  "match_frac s =
     (case s of
        c # d # r \<Rightarrow>
          if c = CHR ''.'' \<and> is_digit d then (c # d # takeWhile is_digit r, dropWhile is_digit r)
          else ('''', s)
      | _ \<Rightarrow> ('''', s))"

definition match_exp :: "string \<Rightarrow> string \<times> string" where
  "match_exp s =
     (case s of
        [] \<Rightarrow> ('''', s)
      | e # r \<Rightarrow>
          if e = CHR ''e'' \<or> e = CHR ''E'' then
            (let (sign, r') = (if take 1 r = ''-'' \<or> take 1 r = ''+'' then (take 1 r, drop 1 r) else ('''', r))
             in if r' \<noteq> [] \<and> is_digit (hd r')
                then (e # sign @ takeWhile is_digit r', dropWhile is_digit r')
                else ('''', s))
          else ('''', s))"

definition match_number :: "string \<Rightarrow> ((string \<times> string \<times> string) \<times> string) option" where
  "match_number s =
     (case match_integer s of
        None \<Rightarrow> None
      | Some (integer, r1) \<Rightarrow>
          (let (fraction, r2) = match_frac r1; (ex, r3) = match_exp r2
           in Some ((integer, fraction, ex), r3)))"

text \<open>\<^verbatim>\<open>int(integer)\<close> on a text matched by the first group.\<close>

definition int_of_digits :: "string \<Rightarrow> int" where
  "int_of_digits ds = int (foldl (\<lambda>n c. n * 10 + digit_val c) 0 ds)"

definition parse_int :: "string \<Rightarrow> int" where
  "parse_int s = (if take 1 s = ''-'' then - int_of_digits (drop 1 s) else int_of_digits s)"

text \<open>
  \<^verbatim>\<open>scan_once\<close> with \<^verbatim>\<open>JSONObject\<close> and \<^verbatim>\<open>JSONArray\<close>. The scanner calls itself through
  the two container parsers, so the three are one recursion on a counter: the first argument
  bounds the number of calls still allowed, and \<^term>\<open>RecursionError\<close> is the answer when it is
  used up. \<^verbatim>\<open>object_loop\<close> and \<^verbatim>\<open>array_loop\<close> are the \<^verbatim>\<open>while True\<close> loops of the two
  parsers, with the pairs or values collected so far; \<^verbatim>\<open>object_loop\<close> starts behind the
  opening quote of a key. The fast paths of the source that step over one or two blanks
  before calling the whitespace pattern are \<^term>\<open>skip_ws\<close>.
\<close>

fun scan_once :: "nat \<Rightarrow> string \<Rightarrow> exc + (pyval \<times> string)"
  and object_loop :: "nat \<Rightarrow> (string \<times> pyval) list \<Rightarrow> string \<Rightarrow> exc + (pyval \<times> string)"
  and array_loop :: "nat \<Rightarrow> pyval list \<Rightarrow> string \<Rightarrow> exc + (pyval \<times> string)"
where
  "scan_once 0 s = Inl RecursionError"
| "scan_once (Suc n) s =
     (case s of
        [] \<Rightarrow> Inl JSONDecodeError
      | nextchar # r \<Rightarrow>
          if nextchar = DQUOTE then
            (case scanstring r of Inl e \<Rightarrow> Inl e | Inr (str, r') \<Rightarrow> Inr (PStr str, r'))
          else if nextchar = CHR ''{'' then
            (case skip_ws r of
               [] \<Rightarrow> Inl JSONDecodeError
             | c # r' \<Rightarrow>
                 if c = CHR ''}'' then Inr (PDict [], r')
                 else if c = DQUOTE then object_loop n [] r'
                 else Inl JSONDecodeError)
          else if nextchar = CHR ''['' then
            (let r1 = skip_ws r
             in if take 1 r1 = '']'' then Inr (PList [], drop 1 r1) else array_loop n [] r1)
          else if nextchar = CHR ''n'' \<and> take 4 s = ''null'' then Inr (PNone, drop 4 s)
          else if nextchar = CHR ''t'' \<and> take 4 s = ''true'' then Inr (PBool True, drop 4 s)
          else if nextchar = CHR ''f'' \<and> take 5 s = ''false'' then Inr (PBool False, drop 5 s)
          else
            (case match_number s of
               Some ((integer, fraction, ex), r') \<Rightarrow>
                 if fraction \<noteq> [] \<or> ex \<noteq> [] then Inr (PFloat (integer @ fraction @ ex), r')
                 else Inr (PInt (parse_int integer), r')
             | None \<Rightarrow>
                 if nextchar = CHR ''N'' \<and> take 3 s = ''NaN'' then Inr (PFloat ''NaN'', drop 3 s)
                 else if nextchar = CHR ''I'' \<and> take 8 s = ''Infinity'' then
                   Inr (PFloat ''Infinity'', drop 8 s)
                 else if nextchar = CHR ''-'' \<and> take 9 s = ''-Infinity'' then
                   Inr (PFloat ''-Infinity'', drop 9 s)
                 else Inl JSONDecodeError))"
| "object_loop 0 pairs s = Inl RecursionError"
| "object_loop (Suc n) pairs s =
     (case scanstring s of
        Inl e \<Rightarrow> Inl e
      | Inr (key, r1) \<Rightarrow>
          (case skip_ws r1 of
             [] \<Rightarrow> Inl JSONDecodeError
           | c # r2 \<Rightarrow>
               if c \<noteq> CHR '':'' then Inl JSONDecodeError
               else
                 (case scan_once n (skip_ws r2) of
                    Inl e \<Rightarrow> Inl e
                  | Inr (v, r3) \<Rightarrow>
                      (case skip_ws r3 of
                         [] \<Rightarrow> Inl JSONDecodeError
                       | d # r4 \<Rightarrow>
                           if d = CHR ''}'' then Inr (PDict (dict_of_pairs (pairs @ [(key, v)])), r4)
                           else if d \<noteq> CHR '','' then Inl JSONDecodeError
                           else
                             (case skip_ws r4 of
                                [] \<Rightarrow> Inl JSONDecodeError
                              | q # r5 \<Rightarrow>
                                  if q = DQUOTE then object_loop n (pairs @ [(key, v)]) r5
                                  else Inl JSONDecodeError)))))"
| "array_loop 0 vs s = Inl RecursionError"
| "array_loop (Suc n) vs s =
     (case scan_once n s of
        Inl e \<Rightarrow> Inl e
      | Inr (v, r1) \<Rightarrow>
          (case skip_ws r1 of
             [] \<Rightarrow> Inl JSONDecodeError
           | d # r2 \<Rightarrow>
               if d = CHR '']'' then Inr (PList (vs @ [v]), r2)
               else if d \<noteq> CHR '','' then Inl JSONDecodeError
               else array_loop n (vs @ [v]) (skip_ws r2)))"

text \<open>
  \<^verbatim>\<open>JSONDecoder.raw_decode\<close> and \<^verbatim>\<open>JSONDecoder.decode\<close>. The counter handed to the scanner is
  large enough for every document (lemma \<open>raw_decode_no_RecursionError\<close> below).
\<close>

definition raw_decode :: "string \<Rightarrow> exc + (pyval \<times> string)" where
  "raw_decode s = scan_once (2 * length s + 1) s"

definition decode :: "string \<Rightarrow> exc + pyval" where
  "decode s =
     (case raw_decode (skip_ws s) of
        Inl e \<Rightarrow> Inl e
      | Inr (obj, r) \<Rightarrow> if skip_ws r \<noteq> [] then Inl JSONDecodeError else Inr obj)"

text \<open>\<^verbatim>\<open>json.loads(s)\<close> for a \<^verbatim>\<open>str\<close>: a leading byte-order mark is refused.\<close>

definition json_loads :: "string \<Rightarrow> exc + pyval" where
  "json_loads s =
     (if take 3 s = [CHR 0xEF, CHR 0xBB, CHR 0xBF] then Inl JSONDecodeError else decode s)"

subsection \<open>The environment of a call\<close>

text \<open>
  What the code reads from outside itself during one call.
  \<^item> \<^verbatim>\<open>today\<close>: the calendar date \<^verbatim>\<open>datetime.now().date()\<close> as (year, month, day).
  \<^item> \<^verbatim>\<open>nfkc_normalize\<close>, \<^verbatim>\<open>bracketed_host_ok\<close>: two checks \<^verbatim>\<open>urlsplit\<close> makes through other
    library modules, \<^verbatim>\<open>unicodedata.normalize('NFKC', _)\<close> and \<^verbatim>\<open>_check_bracketed_host\<close>.
  \<^item> \<^verbatim>\<open>resolve\<close>: what \<^verbatim>\<open>dns.resolver.Resolver.resolve(name, TXT)\<close> does for a name: the
    exception it raises, or the answer, one list of character strings per record.
  \<^item> \<^verbatim>\<open>get_rdap_data\<close>: what \<^verbatim>\<open>RDAPClient._get_rdap_data(domain)\<close>, which is network traffic
    only, does: the exception it raises or the decoded JSON body.
  \<^item> \<^verbatim>\<open>now_dns_get\<close>, \<^verbatim>\<open>now_dns_set\<close>, \<^verbatim>\<open>now_rdap_get\<close>, \<^verbatim>\<open>now_rdap_set\<close>: the readings of
    \<^verbatim>\<open>time.time()\<close> in \<^verbatim>\<open>Cache.get\<close> and \<^verbatim>\<open>Cache.set\<close> of the two caches.
\<close>

type_synonym date = "nat \<times> nat \<times> nat"

record pyenv =
  today :: date
  nfkc_normalize :: "string \<Rightarrow> string"
  bracketed_host_ok :: "string \<Rightarrow> bool"
  resolve :: "string \<Rightarrow> exc + string list list"
  get_rdap_data :: "string \<Rightarrow> exc + pyval"
  now_dns_get :: real
  now_dns_set :: real
  now_rdap_get :: real
  now_rdap_set :: real

subsection \<open>\<^verbatim>\<open>urllib.parse.urlparse\<close>\<close>

record parse_result =
  scheme :: string
  netloc :: string
  path :: string
  params :: string
  query :: string
  fragment :: string

definition scheme_chars :: string where
  "scheme_chars = ''abcdefghijklmnopqrstuvwxyzABCDEFGHIJKLMNOPQRSTUVWXYZ0123456789+-.''"

definition uses_params :: "string list" where
  "uses_params = ['''', ''ftp'', ''hdl'', ''prospero'', ''http'', ''imap'', ''https'', ''shttp'',
     ''rtsp'', ''rtsps'', ''rtspu'', ''sip'', ''sips'', ''mms'', ''sftp'', ''tel'']"

definition isascii :: "string \<Rightarrow> bool" where
  "isascii s = (\<forall>c \<in> set s. (of_char c :: nat) < 0x80)"

text \<open>\<^verbatim>\<open>c.lower()\<close> for an ASCII character.\<close>

definition lower_char :: "char \<Rightarrow> char" where
  "lower_char c = (if is_upper c then char_of (of_char c + (32::nat)) else c)"

text \<open>\<^verbatim>\<open>s.find(c)\<close> as the text before the first \<^verbatim>\<open>c\<close>, and \<^verbatim>\<open>s.split(c, 1)\<close>.\<close>

definition before :: "char \<Rightarrow> string \<Rightarrow> string" where
  "before c s = takeWhile (\<lambda>x. x \<noteq> c) s"

definition after :: "char \<Rightarrow> string \<Rightarrow> string" where
  "after c s = drop 1 (dropWhile (\<lambda>x. x \<noteq> c) s)"

definition splitnetloc :: "string \<Rightarrow> string \<times> string" where
  "splitnetloc url =
     (let r = drop 2 url
      in (takeWhile (\<lambda>c. c \<notin> set ''/?#'') r, dropWhile (\<lambda>c. c \<notin> set ''/?#'') r))"

definition checknetloc :: "pyenv \<Rightarrow> string \<Rightarrow> exc + unit" where
  "checknetloc env nl =
     (if nl = [] \<or> isascii nl then Inr ()
      else
        (let n = filter (\<lambda>c. c \<notin> set ''@:#?'') nl;
             netloc2 = nfkc_normalize env n
         in if n = netloc2 then Inr ()
            else if \<exists>c \<in> set ''/?#@:''. c \<in> set netloc2 then Inl ValueError
            else Inr ()))"

definition check_brackets :: "pyenv \<Rightarrow> string \<Rightarrow> exc + unit" where
  "check_brackets env nl =
     (let has_open = CHR ''['' \<in> set nl; has_close = CHR '']'' \<in> set nl
      in if (has_open \<and> \<not> has_close) \<or> (has_close \<and> \<not> has_open) then Inl ValueError
         else if has_open \<and> has_close then
           (if bracketed_host_ok env (before (CHR '']'') (after (CHR ''['') nl)) then Inr ()
            else Inl ValueError)
         else Inr ())"

definition urlsplit :: "pyenv \<Rightarrow> string \<Rightarrow> exc + parse_result" where
  "urlsplit env url0 =
     (let url1 = dropWhile (\<lambda>c. (of_char c :: nat) \<le> 0x20) url0;
          url2 = filter (\<lambda>c. c \<notin> {CHR 0x09, CHR 0x0D, CHR 0x0A}) url1;
          head = before (CHR '':'') url2;
          (sch, url3) =
            (if CHR '':'' \<in> set url2 \<and> head \<noteq> [] \<and> (is_lower (hd url2) \<or> is_upper (hd url2))
                \<and> (\<forall>c \<in> set head. c \<in> set scheme_chars)
             then (map lower_char head, after (CHR '':'') url2)
             else ('''', url2));
          (nl, url4) = (if take 2 url3 = ''//'' then splitnetloc url3 else ('''', url3))
      in case (if take 2 url3 = ''//'' then check_brackets env nl else Inr ()) of
           Inl e \<Rightarrow> Inl e
         | Inr _ \<Rightarrow>
             (let (url5, frag) = (if CHR ''#'' \<in> set url4
                                  then (before (CHR ''#'') url4, after (CHR ''#'') url4)
                                  else (url4, ''''));
                  (url6, qry) = (if CHR ''?'' \<in> set url5
                                 then (before (CHR ''?'') url5, after (CHR ''?'') url5)
                                 else (url5, ''''))
              in case checknetloc env nl of
                   Inl e \<Rightarrow> Inl e
                 | Inr _ \<Rightarrow>
                     Inr \<lparr>scheme = sch, netloc = nl, path = url6, params = '''',
                          query = qry, fragment = frag\<rparr>))"

text \<open>
  \<^verbatim>\<open>_splitparams\<close>: the first \<^verbatim>\<open>;\<close> behind the last \<^verbatim>\<open>/\<close> (or the first one when the
  path has no \<^verbatim>\<open>/\<close>) separates the parameters.
\<close>

definition splitparams :: "string \<Rightarrow> string \<times> string" where
  "splitparams url =
     (if CHR ''/'' \<in> set url then
        (let tl = rev (takeWhile (\<lambda>c. c \<noteq> CHR ''/'') (rev url));
             hd_part = take (length url - length tl) url
         in if CHR '';'' \<in> set tl then (hd_part @ before (CHR '';'') tl, after (CHR '';'') tl)
            else (url, ''''))
      else (before (CHR '';'') url, after (CHR '';'') url))"

definition urlparse :: "pyenv \<Rightarrow> string \<Rightarrow> exc + parse_result" where
  "urlparse env url =
     (case urlsplit env url of
        Inl e \<Rightarrow> Inl e
      | Inr r \<Rightarrow>
          if scheme r \<in> set uses_params \<and> CHR '';'' \<in> set (path r)
          then (let (u, p) = splitparams (path r) in Inr (r\<lparr>path := u, params := p\<rparr>))
          else Inr r)"

subsection \<open>The validator (\<^verbatim>\<open>validator.py\<close>)\<close>

definition MAX_TXT_SIZE :: nat where "MAX_TXT_SIZE = 255"
definition VERSION_TAG :: string where "VERSION_TAG = ''v=FORSALE1;''"
definition REQUIRED_FIELDS :: "string list" where
  "REQUIRED_FIELDS = [''v'', ''price'', ''url'', ''contact'']"
definition OPTIONAL_FIELDS :: "string list" where "OPTIONAL_FIELDS = [''expires'']"
definition ALLOWED_FIELDS :: "string list" where
  "ALLOWED_FIELDS = REQUIRED_FIELDS @ OPTIONAL_FIELDS"
definition ALLOWED_URL_SCHEMES :: "string list" where "ALLOWED_URL_SCHEMES = [''https'']"
definition ALLOWED_CONTACT_SCHEMES :: "string list" where "ALLOWED_CONTACT_SCHEMES = [''mailto'']"

text \<open>
  The end of a pattern, \<^verbatim>\<open>$\<close> without \<^verbatim>\<open>re.MULTILINE\<close>: the end of the text, or just before
  a newline that ends the text.
\<close>

definition at_end :: "string \<Rightarrow> bool" where
  "at_end s = (s = [] \<or> s = [CHR 0x0A])"

text \<open>\<^verbatim>\<open>price_pattern = ^[A-Z]{3}:[0-9]+(\.[0-9]{1,2})?$\<close>, used with \<^verbatim>\<open>match\<close>.\<close>

definition price_pattern :: "string \<Rightarrow> bool" where
  "price_pattern s =
     (case s of
        a # b # c # colon # rest \<Rightarrow>
          is_upper a \<and> is_upper b \<and> is_upper c \<and> colon = CHR '':'' \<and>
          takeWhile is_digit rest \<noteq> [] \<and>
          (let r = dropWhile is_digit rest
           in at_end r \<or>
              (case r of
                 dot # d1 # r' \<Rightarrow>
                   dot = CHR ''.'' \<and> is_digit d1 \<and>
                   (at_end r' \<or> (case r' of d2 # r'' \<Rightarrow> is_digit d2 \<and> at_end r'' | [] \<Rightarrow> False))
               | _ \<Rightarrow> False))
      | _ \<Rightarrow> False)"

text \<open>\<^verbatim>\<open>date_pattern = ^[0-9]{4}-[0-9]{2}-[0-9]{2}$\<close>, used with \<^verbatim>\<open>match\<close>.\<close>

definition date_pattern :: "string \<Rightarrow> bool" where
  "date_pattern s =
     (case s of
        y1 # y2 # y3 # y4 # h1 # m1 # m2 # h2 # d1 # d2 # r \<Rightarrow>
          (\<forall>c \<in> set [y1, y2, y3, y4, m1, m2, d1, d2]. is_digit c) \<and>
          h1 = CHR ''-'' \<and> h2 = CHR ''-'' \<and> at_end r
      | _ \<Rightarrow> False)"

definition is_leap :: "nat \<Rightarrow> bool" where
  "is_leap y = (y mod 4 = 0 \<and> (y mod 100 \<noteq> 0 \<or> y mod 400 = 0))"

definition days_in_month :: "nat \<Rightarrow> nat \<Rightarrow> nat" where
  "days_in_month y m =
     (if m = 2 then (if is_leap y then 29 else 28)
      else if m \<in> {4, 6, 9, 11} then 30 else 31)"

definition num2 :: "char \<Rightarrow> char \<Rightarrow> nat" where
  "num2 a b = digit_val a * 10 + digit_val b"

text \<open>
  \<^verbatim>\<open>datetime.strptime(s, "%Y-%m-%d").date()\<close> on a text that passed \<^verbatim>\<open>date_pattern\<close>:
  \<^verbatim>\<open>ValueError\<close> when text remains behind the day, when the month is not 01..12 or the day not
  01..31, when the year is 0, or when the month has no such day.
\<close>

definition strptime_date :: "string \<Rightarrow> exc + date" where
  "strptime_date s =
     (case s of
        [y1, y2, y3, y4, h1, m1, m2, h2, d1, d2] \<Rightarrow>
          (let y = num2 y1 y2 * 100 + num2 y3 y4; m = num2 m1 m2; d = num2 d1 d2
           in if 1 \<le> m \<and> m \<le> 12 \<and> 1 \<le> d \<and> d \<le> 31 \<and> 1 \<le> y \<and> d \<le> days_in_month y m
              then Inr (y, m, d) else Inl ValueError)
      | _ \<Rightarrow> Inl ValueError)"

definition date_less :: "date \<Rightarrow> date \<Rightarrow> bool" where
  "date_less a b =
     (case (a, b) of
        ((y, m, d), (y', m', d')) \<Rightarrow> y < y' \<or> (y = y' \<and> (m < m' \<or> (m = m' \<and> d < d'))))"

text \<open>
  \<^verbatim>\<open>_validate_schema\<close>. The loops raise at the first missing or unknown field; only the
  message depends on which one it is.
\<close>

definition validate_schema :: "pyval \<Rightarrow> exc + unit" where
  "validate_schema record =
     (case record of
        PDict d \<Rightarrow>
          if \<exists>field \<in> set REQUIRED_FIELDS. field \<notin> set (dict_keys d) then Inl SchemaValidationError
          else if \<exists>field \<in> set (dict_keys d). field \<notin> set ALLOWED_FIELDS then Inl SchemaValidationError
          else Inr ()
      | _ \<Rightarrow> Inl SchemaValidationError)"

text \<open>
  \<^verbatim>\<open>_validate_url\<close>. The whole body is inside \<^verbatim>\<open>try ... except Exception\<close>, which turns every
  exception into \<^verbatim>\<open>FieldValidationError\<close>. A value that is not a \<^verbatim>\<open>str\<close> either makes
  \<^verbatim>\<open>urlparse\<close> raise or parses to the empty \<^verbatim>\<open>bytes\<close> scheme, which is not in the list.
\<close>

definition validate_url :: "pyenv \<Rightarrow> pyval \<Rightarrow> exc + unit" where
  "validate_url env url =
     (case url of
        PStr u \<Rightarrow>
          (case urlparse env u of
             Inl e \<Rightarrow> Inl FieldValidationError
           | Inr parsed_url \<Rightarrow>
               if scheme parsed_url \<notin> set ALLOWED_URL_SCHEMES then Inl FieldValidationError
               else if netloc parsed_url = [] then Inl FieldValidationError
               else Inr ())
      | _ \<Rightarrow> Inl FieldValidationError)"

text \<open>\<^verbatim>\<open>_validate_contact\<close>, with the same \<^verbatim>\<open>try ... except Exception\<close>.\<close>

definition validate_contact :: "pyenv \<Rightarrow> pyval \<Rightarrow> exc + unit" where
  "validate_contact env contact =
     (case contact of
        PStr c \<Rightarrow>
          (case urlparse env c of
             Inl e \<Rightarrow> Inl FieldValidationError
           | Inr parsed_contact \<Rightarrow>
               if scheme parsed_contact \<notin> set ALLOWED_CONTACT_SCHEMES then Inl FieldValidationError
               else if scheme parsed_contact = ''mailto'' \<and> path parsed_contact = []
               then Inl FieldValidationError
               else Inr ())
      | _ \<Rightarrow> Inl FieldValidationError)"

text \<open>
  \<^verbatim>\<open>_validate_expires\<close>. The pattern match is outside the \<^verbatim>\<open>try\<close>: on a value that is not a
  \<^verbatim>\<open>str\<close> it raises \<^verbatim>\<open>TypeError\<close>.
\<close>

definition validate_expires :: "pyenv \<Rightarrow> pyval \<Rightarrow> exc + unit" where
  "validate_expires env expires =
     (case expires of
        PStr e \<Rightarrow>
          if \<not> date_pattern e then Inl FieldValidationError
          else
            (case strptime_date e of
               Inl err \<Rightarrow> Inl FieldValidationError
             | Inr expire_date \<Rightarrow>
                 if date_less expire_date (today env) then Inl FieldValidationError else Inr ())
      | _ \<Rightarrow> Inl TypeError)"

text \<open>
  \<^verbatim>\<open>_validate_fields\<close>, called behind \<^verbatim>\<open>_validate_schema\<close>, so on a dict that has the
  required keys (a missing key would be \<^verbatim>\<open>KeyError\<close>, written \<^term>\<open>OtherException ''KeyError''\<close>).
  \<^verbatim>\<open>price_pattern.match\<close> raises \<^verbatim>\<open>TypeError\<close> on a value that is not a \<^verbatim>\<open>str\<close>.
\<close>

definition subscript :: "pydict \<Rightarrow> string \<Rightarrow> exc + pyval" where
  "subscript d k = (case dict_get d k of None \<Rightarrow> Inl (OtherException ''KeyError'') | Some v \<Rightarrow> Inr v)"

definition validate_fields :: "pyenv \<Rightarrow> pydict \<Rightarrow> exc + unit" where
  "validate_fields env record =
     (case subscript record ''v'' of
        Inl e \<Rightarrow> Inl e
      | Inr v \<Rightarrow>
          if v \<noteq> PStr ''1'' then Inl FieldValidationError
          else
            (case subscript record ''price'' of
               Inl e \<Rightarrow> Inl e
             | Inr price \<Rightarrow>
                 (case price of
                    PStr p \<Rightarrow>
                      if \<not> price_pattern p then Inl FieldValidationError
                      else
                        (case subscript record ''url'' of
                           Inl e \<Rightarrow> Inl e
                         | Inr url \<Rightarrow>
                             (case validate_url env url of
                                Inl e \<Rightarrow> Inl e
                              | Inr _ \<Rightarrow>
                                  (case subscript record ''contact'' of
                                     Inl e \<Rightarrow> Inl e
                                   | Inr contact \<Rightarrow>
                                       (case validate_contact env contact of
                                          Inl e \<Rightarrow> Inl e
                                        | Inr _ \<Rightarrow>
                                            (case dict_get record ''expires'' of
                                               None \<Rightarrow> Inr ()
                                             | Some expires \<Rightarrow> validate_expires env expires)))))
                  | _ \<Rightarrow> Inl TypeError)))"

text \<open>
  The \<^verbatim>\<open>except\<close> clauses of \<^verbatim>\<open>extract_and_validate_record\<close>, in their order:
  \<^verbatim>\<open>json.JSONDecodeError\<close> becomes \<^verbatim>\<open>SchemaValidationError\<close>, the two validation errors are
  raised again, every other \<^verbatim>\<open>Exception\<close> becomes \<^verbatim>\<open>SchemaValidationError\<close>.
\<close>

definition extract_except :: "exc \<Rightarrow> exc" where
  "extract_except e =
     (if e = JSONDecodeError then SchemaValidationError
      else if e = SchemaValidationError \<or> e = FieldValidationError then e
      else SchemaValidationError)"

text \<open>
  \<^verbatim>\<open>extract_and_validate_record\<close>: \<^term>\<open>Inr None\<close> is the return value \<^verbatim>\<open>None\<close> (no version
  tag), \<^term>\<open>Inr (Some record)\<close> the validated dict.
\<close>

definition extract_and_validate_record :: "pyenv \<Rightarrow> string \<Rightarrow> exc + pydict option" where
  "extract_and_validate_record env txt_record =
     (if length txt_record > MAX_TXT_SIZE then Inl SizeExceededError
      else if take (length VERSION_TAG) txt_record \<noteq> VERSION_TAG then Inr None
      else
        (let json_content = drop (length VERSION_TAG) txt_record
         in case json_loads json_content of
              Inl e \<Rightarrow> Inl (extract_except e)
            | Inr record \<Rightarrow>
                (case validate_schema record of
                   Inl e \<Rightarrow> Inl (extract_except e)
                 | Inr _ \<Rightarrow>
                     (case record of
                        PDict d \<Rightarrow>
                          (case validate_fields env d of
                             Inl e \<Rightarrow> Inl (extract_except e)
                           | Inr _ \<Rightarrow> Inr (Some d))
                      | _ \<Rightarrow> Inl SchemaValidationError))))"

subsection \<open>The cache (\<^verbatim>\<open>cache.py\<close>)\<close>

text \<open>
  \<^verbatim>\<open>Cache\<close>: the field \<^verbatim>\<open>ttl\<close> and the dict \<^verbatim>\<open>_cache\<close> from keys to (value, expiry). The
  reading of \<^verbatim>\<open>time.time()\<close> is an argument. \<^verbatim>\<open>get\<close> answers \<^term>\<open>None\<close> for a miss; the
  values cached by the facade (a tuple, a \<^verbatim>\<open>bool\<close>) are never Python's \<^verbatim>\<open>None\<close>.

  \<^verbatim>\<open>set\<close> computes \<^verbatim>\<open>time.time() + self.ttl\<close>, a \<^verbatim>\<open>float\<close> plus an \<^verbatim>\<open>int\<close>: the \<^verbatim>\<open>int\<close> is converted to
  a double first, rounding to 53 bits (half to even), and the conversion raises
  \<^verbatim>\<open>OverflowError\<close> (int too large to convert to float) when the rounded value reaches
  \<^verbatim>\<open>2**1024\<close> in absolute value, that is from \<^verbatim>\<open>2**1024 - 2**970\<close> on, before anything is stored.
  Times and expiry instants are real numbers here: the rounding of the sum itself is left out.
\<close>

record 'v cache =
  ttl :: int
  entries :: "string \<Rightarrow> ('v \<times> real) option"

definition Cache :: "int \<Rightarrow> 'v cache" where
  "Cache t = \<lparr>ttl = t, entries = Map.empty\<rparr>"

definition cache_get :: "'v cache \<Rightarrow> string \<Rightarrow> real \<Rightarrow> 'v option \<times> 'v cache" where
  "cache_get c key now =
     (case entries c key of
        Some (v, expiry) \<Rightarrow>
          if now < expiry then (Some v, c)
          else (None, c\<lparr>entries := (entries c)(key := None)\<rparr>)
      | None \<Rightarrow> (None, c))"

definition float_overflow :: "int \<Rightarrow> bool" where
  "float_overflow n \<longleftrightarrow> 2 ^ 1024 - 2 ^ 970 \<le> \<bar>n\<bar>"

definition cache_set :: "'v cache \<Rightarrow> string \<Rightarrow> 'v \<Rightarrow> real \<Rightarrow> exc + 'v cache" where
  "cache_set c key v now =
     (if float_overflow (ttl c) then Inl OverflowError
      else Inr (c\<lparr>entries := (entries c)(key \<mapsto> (v, now + real_of_int (ttl c)))\<rparr>))"

definition cache_invalidate :: "'v cache \<Rightarrow> string \<Rightarrow> 'v cache" where
  "cache_invalidate c key = c\<lparr>entries := (entries c)(key := None)\<rparr>"

definition cache_clear :: "'v cache \<Rightarrow> 'v cache" where
  "cache_clear c = c\<lparr>entries := Map.empty\<rparr>"

text \<open>
  \<^verbatim>\<open>cached(cache_instance, key_func)(func)\<close>, the wrapper. The wrapped function acts on the
  rest of the program state \<^typ>\<open>'w\<close> and returns or raises; \<^verbatim>\<open>now_get\<close> and \<^verbatim>\<open>now_set\<close> are
  the clock readings inside \<^verbatim>\<open>get\<close> and \<^verbatim>\<open>set\<close>. An exception of \<^verbatim>\<open>set\<close> leaves the wrapper after
  the wrapped function has returned.
\<close>

definition cached ::
  "'v cache \<Rightarrow> ('a \<Rightarrow> string) \<Rightarrow> ('a \<Rightarrow> 'w \<Rightarrow> (exc + 'v) \<times> 'w) \<Rightarrow> real \<Rightarrow> real \<Rightarrow> 'a \<Rightarrow> 'w
     \<Rightarrow> (exc + 'v) \<times> 'v cache \<times> 'w" where
  "cached cache_instance key_func func now_get now_set args w =
     (let key = key_func args
      in case cache_get cache_instance key now_get of
           (Some cached_value, c) \<Rightarrow> (Inr cached_value, c, w)
         | (None, c) \<Rightarrow>
             (case func args w of
                (Inl e, w') \<Rightarrow> (Inl e, c, w')
              | (Inr result, w') \<Rightarrow>
                  (case cache_set c key result now_set of
                     Inl e \<Rightarrow> (Inl e, c, w')
                   | Inr c' \<Rightarrow> (Inr result, c', w'))))"

subsection \<open>Program state outside the caches\<close>

text \<open>
  The list \<^verbatim>\<open>["dns"]\<close> made by the resolver is stored in the DNS cache and later mutated and
  handed out by the facade, so list objects live in a heap and are passed by reference.
  Two counters record how often the network was asked.
\<close>

record world =
  heap :: "nat \<Rightarrow> string list"
  next_ref :: nat
  dns_lookups :: nat
  rdap_checks :: nat

definition new_list :: "string list \<Rightarrow> world \<Rightarrow> nat \<times> world" where
  "new_list xs w = (next_ref w, w\<lparr>heap := (heap w)(next_ref w := xs), next_ref := next_ref w + 1\<rparr>)"

definition list_append :: "nat \<Rightarrow> string \<Rightarrow> world \<Rightarrow> world" where
  "list_append r x w = w\<lparr>heap := (heap w)(r := heap w r @ [x])\<rparr>"

subsection \<open>The resolver (\<^verbatim>\<open>resolver.py\<close>)\<close>

definition FOR_SALE_PREFIX :: string where "FOR_SALE_PREFIX = ''_for-sale''"

text \<open>\<^verbatim>\<open>bytes.decode('utf-8')\<close>: the well-formed byte sequences, \<^verbatim>\<open>UnicodeDecodeError\<close> otherwise.\<close>

definition cont :: "char \<Rightarrow> bool" where
  "cont c = (0x80 \<le> (of_char c :: nat) \<and> (of_char c :: nat) \<le> 0xBF)"

fun valid_utf8 :: "string \<Rightarrow> bool" where
  "valid_utf8 [] = True"
| "valid_utf8 (a # s) =
     (let n = (of_char a :: nat)
      in if n < 0x80 then valid_utf8 s
         else if 0xC2 \<le> n \<and> n \<le> 0xDF then
           (case s of b # s' \<Rightarrow> cont b \<and> valid_utf8 s' | _ \<Rightarrow> False)
         else if 0xE0 \<le> n \<and> n \<le> 0xEF then
           (case s of
              b # c # s' \<Rightarrow>
                cont b \<and> cont c \<and> (n = 0xE0 \<longrightarrow> 0xA0 \<le> (of_char b :: nat))
                \<and> (n = 0xED \<longrightarrow> (of_char b :: nat) \<le> 0x9F) \<and> valid_utf8 s'
            | _ \<Rightarrow> False)
         else if 0xF0 \<le> n \<and> n \<le> 0xF4 then
           (case s of
              b # c # d # s' \<Rightarrow>
                cont b \<and> cont c \<and> cont d \<and> (n = 0xF0 \<longrightarrow> 0x90 \<le> (of_char b :: nat))
                \<and> (n = 0xF4 \<longrightarrow> (of_char b :: nat) \<le> 0x8F) \<and> valid_utf8 s'
            | _ \<Rightarrow> False)
         else False)"

definition decode_utf8 :: "string \<Rightarrow> exc + string" where
  "decode_utf8 b = (if valid_utf8 b then Inr b else Inl UnicodeDecodeError)"

text \<open>
  \<^verbatim>\<open>_lookup_with_dnssec\<close>: \<^verbatim>\<open>NoAnswer\<close>, \<^verbatim>\<open>NXDOMAIN\<close> and \<^verbatim>\<open>Timeout\<close> are raised again, every
  other exception becomes \<^verbatim>\<open>DNSSECValidationError\<close>.
\<close>

definition lookup_with_dnssec :: "pyenv \<Rightarrow> string \<Rightarrow> exc + string list list" where
  "lookup_with_dnssec env name =
     (case resolve env name of
        Inr answer \<Rightarrow> Inr answer
      | Inl e \<Rightarrow>
          if e = NoAnswer \<or> e = NXDOMAIN \<or> e = ResolverTimeout then Inl e
          else Inl DNSSECValidationError)"

text \<open>
  The \<^verbatim>\<open>for rdata in answers\<close> loop of \<^verbatim>\<open>lookup_for_sale_record\<close>: the strings of a record
  are joined and decoded; a content above the size limit is skipped (\<^verbatim>\<open>continue\<close>).
\<close>

fun collect_txt :: "string list list \<Rightarrow> exc + string list" where
  "collect_txt [] = Inr []"
| "collect_txt (strings # answers) =
     (case decode_utf8 (concat strings) of
        Inl e \<Rightarrow> Inl e
      | Inr txt_content \<Rightarrow>
          (case collect_txt answers of
             Inl e \<Rightarrow> Inl e
           | Inr txt_records \<Rightarrow>
               if length txt_content > MAX_TXT_SIZE then Inr txt_records
               else Inr (txt_content # txt_records)))"

text \<open>
  \<^verbatim>\<open>lookup_for_sale_record\<close>. The result is the list of contents and a reference to a new
  list \<^verbatim>\<open>["dns"]\<close>. The \<^verbatim>\<open>except\<close> clauses, in their order: \<^verbatim>\<open>NoAnswer\<close> and \<^verbatim>\<open>NXDOMAIN\<close> return
  no records, \<^verbatim>\<open>Timeout\<close> and \<^verbatim>\<open>ValidationFailure\<close> are translated, anything else is raised
  again.
\<close>

definition lookup_for_sale_record :: "pyenv \<Rightarrow> string \<Rightarrow> world \<Rightarrow> (exc + (string list \<times> nat)) \<times> world" where
  "lookup_for_sale_record env domain_name w0 =
     (let query_name = FOR_SALE_PREFIX @ ''.'' @ domain_name;
          w = w0\<lparr>dns_lookups := dns_lookups w0 + 1\<rparr>;
          body = (case lookup_with_dnssec env query_name of
                    Inl e \<Rightarrow> Inl e
                  | Inr answers \<Rightarrow> collect_txt answers)
      in case body of
           Inr txt_records \<Rightarrow> (let (r, w') = new_list [''dns''] w in (Inr (txt_records, r), w'))
         | Inl e \<Rightarrow>
             if e = NoAnswer \<or> e = NXDOMAIN then
               (let (r, w') = new_list [''dns''] w in (Inr ([], r), w'))
             else if e = ResolverTimeout then (Inl TimeoutError, w)
             else if e = ValidationFailure then (Inl DNSSECValidationError, w)
             else (Inl e, w))"

subsection \<open>The RDAP client (\<^verbatim>\<open>rdap.py\<close>)\<close>

definition FOR_SALE_STATUS_TAG :: string where "FOR_SALE_STATUS_TAG = ''for-sale''"

text \<open>\<^verbatim>\<open>a in b\<close> for two \<^verbatim>\<open>str\<close>: \<^verbatim>\<open>a\<close> occurs in \<^verbatim>\<open>b\<close>.\<close>

fun occurs_in :: "string \<Rightarrow> string \<Rightarrow> bool" where
  "occurs_in a [] = (a = [])"
| "occurs_in a (c # s) = (take (length a) (c # s) = a \<or> occurs_in a s)"

text \<open>
  \<^verbatim>\<open>check_for_sale_status\<close>. On a dict the answer is whether \<^verbatim>\<open>"status"\<close> is a list that holds
  the tag. The test \<^verbatim>\<open>"status" in rdap_data\<close> and the subscript raise \<^verbatim>\<open>TypeError\<close> on other
  bodies; the \<^verbatim>\<open>except\<close> clauses turn \<^verbatim>\<open>requests.Timeout\<close> into \<^verbatim>\<open>TimeoutError\<close> and everything
  else into \<^verbatim>\<open>RDAPError\<close>.
\<close>

definition check_for_sale_status :: "pyenv \<Rightarrow> string \<Rightarrow> world \<Rightarrow> (exc + bool) \<times> world" where
  "check_for_sale_status env domain_name w0 =
     (let w = w0\<lparr>rdap_checks := rdap_checks w0 + 1\<rparr>;
          body = (case get_rdap_data env domain_name of
                    Inl e \<Rightarrow> Inl e
                  | Inr rdap_data \<Rightarrow>
                      (case rdap_data of
                         PDict d \<Rightarrow>
                           (case dict_get d ''status'' of
                              Some (PList l) \<Rightarrow> Inr (PStr FOR_SALE_STATUS_TAG \<in> set l)
                            | _ \<Rightarrow> Inr False)
                       | PList l \<Rightarrow> if PStr ''status'' \<in> set l then Inl TypeError else Inr False
                       | PStr s \<Rightarrow> if occurs_in ''status'' s then Inl TypeError else Inr False
                       | _ \<Rightarrow> Inl TypeError))
      in case body of
           Inr b \<Rightarrow> (Inr b, w)
         | Inl e \<Rightarrow>
             if e = RequestsTimeout then (Inl TimeoutError, w)
             else (Inl RDAPError, w))"

subsection \<open>The facade (\<^verbatim>\<open>api.py\<close>)\<close>

definition DEFAULT_CACHE_TTL :: int where "DEFAULT_CACHE_TTL = 300"

record DomainSaleOptions =
  enable_rdap_check :: bool
  cache_ttl :: int
  timeout :: int

definition default_options :: DomainSaleOptions where
  "default_options = \<lparr>enable_rdap_check = False, cache_ttl = DEFAULT_CACHE_TTL, timeout = 5\<rparr>"

text \<open>
  An entry of \<^verbatim>\<open>response.errors\<close> is a string built from an exception. The text is not
  modelled: an entry records which statement appended it and the exception it formatted.
  \<^item> \<^verbatim>\<open>Str e\<close> is \<^verbatim>\<open>str(e)\<close>, appended in the loop over the records;
  \<^item> \<^verbatim>\<open>RDAPCheckFailed e\<close> is \<^verbatim>\<open>f"RDAP check failed: {e}"\<close>;
  \<^item> \<^verbatim>\<open>DNSSECFailed e\<close> is \<^verbatim>\<open>f"DNSSEC validation failed: {e}"\<close>;
  \<^item> \<^verbatim>\<open>TimeoutMsg e\<close> is \<^verbatim>\<open>f"Timeout: {e}"\<close>;
  \<^item> \<^verbatim>\<open>UnexpectedError e\<close> is \<^verbatim>\<open>f"Unexpected error: {e}"\<close>.
\<close>

datatype err_msg =
    Str exc
  | RDAPCheckFailed exc
  | DNSSECFailed exc
  | TimeoutMsg exc
  | UnexpectedError exc

text \<open>
  \<^verbatim>\<open>source: Union[str, List[str]]\<close>: a \<^verbatim>\<open>str\<close>, or a reference to a list object in the heap.
\<close>

datatype source_val = SourceStr string | SourceList nat

record DomainSaleResponse =
  domain :: string
  for_sale :: bool
  price :: "pyval option"
  url :: "pyval option"
  contact :: "pyval option"
  expires :: "pyval option"
  source :: source_val
  errors :: "err_msg list"

text \<open>\<^verbatim>\<open>DomainSaleResponse(domain=domain)\<close>, with the defaults of \<^verbatim>\<open>__init__\<close>.\<close>

definition new_response :: "string \<Rightarrow> DomainSaleResponse" where
  "new_response d =
     \<lparr>domain = d, for_sale = False, price = None, url = None, contact = None, expires = None,
      source = SourceStr ''dns'', errors = []\<rparr>"

text \<open>The module-level \<^verbatim>\<open>dns_cache\<close> and \<^verbatim>\<open>rdap_cache\<close>, and the rest of the state.\<close>

record api_state =
  dns_cache :: "(string list \<times> nat) cache"
  rdap_cache :: "bool cache"
  world :: world

definition initial_state :: api_state where
  "initial_state =
     \<lparr>dns_cache = Cache DEFAULT_CACHE_TTL, rdap_cache = Cache DEFAULT_CACHE_TTL,
      world = \<lparr>heap = (\<lambda>_. []), next_ref = 0, dns_lookups = 0, rdap_checks = 0\<rparr>\<rparr>"

text \<open>
  \<^verbatim>\<open>_lookup_txt_records\<close> and \<^verbatim>\<open>_check_rdap_status\<close>: the two decorated functions, on the
  state of the module.
\<close>

definition lookup_txt_records :: "pyenv \<Rightarrow> string \<Rightarrow> api_state \<Rightarrow> (exc + (string list \<times> nat)) \<times> api_state" where
  "lookup_txt_records env d st =
     (case cached (dns_cache st) (\<lambda>dn. ''dns:'' @ dn) (lookup_for_sale_record env)
             (now_dns_get env) (now_dns_set env) d (world st) of
        (r, c, w) \<Rightarrow> (r, st\<lparr>dns_cache := c, world := w\<rparr>))"

definition check_rdap_status :: "pyenv \<Rightarrow> string \<Rightarrow> api_state \<Rightarrow> (exc + bool) \<times> api_state" where
  "check_rdap_status env d st =
     (case cached (rdap_cache st) (\<lambda>dn. ''rdap:'' @ dn) (check_for_sale_status env)
             (now_rdap_get env) (now_rdap_set env) d (world st) of
        (r, c, w) \<Rightarrow> (r, st\<lparr>rdap_cache := c, world := w\<rparr>))"

text \<open>Truth value of \<^verbatim>\<open>record_data\<close>: \<^verbatim>\<open>None\<close> and the empty dict are false.\<close>

definition truthy :: "pydict option \<Rightarrow> bool" where
  "truthy record_data = (case record_data of None \<Rightarrow> False | Some d \<Rightarrow> d \<noteq> [])"

text \<open>
  The loop \<^verbatim>\<open>for txt_record in txt_records\<close>, with the values of \<^verbatim>\<open>record_data\<close> and
  \<^verbatim>\<open>response.errors\<close> on entry. The result is their values behind the loop, and the exception
  when one leaves the loop (none of the three validation errors).
\<close>

fun process_records ::
  "pyenv \<Rightarrow> string list \<Rightarrow> pydict option \<Rightarrow> err_msg list \<Rightarrow> exc option \<times> pydict option \<times> err_msg list" where
  "process_records env [] record_data errs = (None, record_data, errs)"
| "process_records env (txt_record # txt_records) record_data errs =
     (case extract_and_validate_record env txt_record of
        Inr rd \<Rightarrow>
          if truthy rd then (None, rd, errs) else process_records env txt_records rd errs
      | Inl e \<Rightarrow>
          if e = SchemaValidationError \<or> e = FieldValidationError \<or> e = SizeExceededError
          then process_records env txt_records record_data (errs @ [Str e])
          else (Some e, record_data, errs))"

text \<open>
  The body of the \<^verbatim>\<open>try\<close> statement of \<^verbatim>\<open>get_domain_sale_status\<close>. The first component is
  the exception that leaves the body, if any; the second is the response object as the body
  left it.
\<close>

definition try_body ::
  "pyenv \<Rightarrow> string \<Rightarrow> DomainSaleOptions \<Rightarrow> DomainSaleResponse \<Rightarrow> api_state
     \<Rightarrow> exc option \<times> DomainSaleResponse \<times> api_state" where
  "try_body env d options response st =
     (case lookup_txt_records env d st of
        (Inl e, st1) \<Rightarrow> (Some e, response, st1)
      | (Inr (txt_records, sources), st1) \<Rightarrow>
          (case process_records env txt_records None (errors response) of
             (Some e, record_data, errs) \<Rightarrow> (Some e, response\<lparr>errors := errs\<rparr>, st1)
           | (None, record_data, errs) \<Rightarrow>
               (case record_data of
                  None \<Rightarrow> (None, response\<lparr>errors := errs\<rparr>, st1)
                | Some rd \<Rightarrow>
                    if \<not> truthy (Some rd) then (None, response\<lparr>errors := errs\<rparr>, st1)
                    else
                      (let (raised, rdap_for_sale, errs2, st2) =
                             (if enable_rdap_check options then
                                (case check_rdap_status env d st1 of
                                   (Inr b, st') \<Rightarrow>
                                     (None, b, errs,
                                      if b then st'\<lparr>world := list_append sources ''rdap'' (world st')\<rparr>
                                      else st')
                                 | (Inl e, st') \<Rightarrow>
                                     if e = RDAPError \<or> e = TimeoutError
                                     then (None, False, errs @ [RDAPCheckFailed e], st')
                                     else (Some e, False, errs, st'))
                              else (None, False, errs, st1))
                       in case raised of
                            Some e \<Rightarrow> (Some e, response\<lparr>errors := errs2\<rparr>, st2)
                          | None \<Rightarrow>
                              if enable_rdap_check options \<and> \<not> rdap_for_sale
                              then (None, response\<lparr>errors := errs2\<rparr>, st2)
                              else
                                (None,
                                 response\<lparr>errors := errs2, for_sale := True,
                                          price := dict_get rd ''price'', url := dict_get rd ''url'',
                                          contact := dict_get rd ''contact'',
                                          expires := dict_get rd ''expires'',
                                          source := SourceList sources\<rparr>,
                                 st2)))))"

text \<open>The \<^verbatim>\<open>except\<close> clauses of \<^verbatim>\<open>get_domain_sale_status\<close>; the last one is \<^verbatim>\<open>except Exception\<close>.\<close>

definition status_except :: "exc \<Rightarrow> DomainSaleResponse \<Rightarrow> DomainSaleResponse" where
  "status_except e response =
     (if e = DNSSECValidationError then response\<lparr>errors := errors response @ [DNSSECFailed e]\<rparr>
      else if e = TimeoutError then response\<lparr>errors := errors response @ [TimeoutMsg e]\<rparr>
      else response\<lparr>errors := errors response @ [UnexpectedError e]\<rparr>)"

text \<open>\<^verbatim>\<open>if options is None: options = DomainSaleOptions()\<close>, with \<^term>\<open>None\<close> for \<^verbatim>\<open>None\<close>.\<close>

definition effective_options :: "DomainSaleOptions option \<Rightarrow> DomainSaleOptions" where
  "effective_options opt = (case opt of None \<Rightarrow> default_options | Some options \<Rightarrow> options)"

text \<open>The update of the two module-level caches at the start of \<^verbatim>\<open>get_domain_sale_status\<close>.\<close>

definition update_cache_ttl :: "DomainSaleOptions \<Rightarrow> api_state \<Rightarrow> api_state" where
  "update_cache_ttl options st =
     (if cache_ttl options \<noteq> DEFAULT_CACHE_TTL
      then st\<lparr>dns_cache := (dns_cache st)\<lparr>ttl := cache_ttl options\<rparr>,
              rdap_cache := (rdap_cache st)\<lparr>ttl := cache_ttl options\<rparr>\<rparr>
      else st)"

text \<open>
  \<^verbatim>\<open>get_domain_sale_status(domain, options)\<close>. The result is the returned response and the
  state of the module behind the call.
\<close>

definition get_domain_sale_status ::
  "pyenv \<Rightarrow> api_state \<Rightarrow> string \<Rightarrow> DomainSaleOptions option \<Rightarrow> DomainSaleResponse \<times> api_state" where
  "get_domain_sale_status env st0 d opt =
     (let options = effective_options opt;
          st = update_cache_ttl options st0;
          response = new_response d
      in case try_body env d options response st of
           (None, response', st') \<Rightarrow> (response', st')
         | (Some e, response', st') \<Rightarrow> (status_except e response', st'))"

text \<open>
  \<^verbatim>\<open>DomainSaleResponse.to_dict\<close> with the list behind \<^verbatim>\<open>source\<close> read from the heap: the
  response as a caller sees it at a moment of the run.
\<close>

datatype source_view = Scalar string | Listed "string list"

definition view_source :: "world \<Rightarrow> source_val \<Rightarrow> source_view" where
  "view_source w s = (case s of SourceStr x \<Rightarrow> Scalar x | SourceList r \<Rightarrow> Listed (heap w r))"

subsection \<open>The HTML renderer (\<^verbatim>\<open>renderer.py\<close>)\<close>

text \<open>\<^verbatim>\<open>str.replace(old, new)\<close> for a one-character \<^verbatim>\<open>old\<close>.\<close>

definition replace_char :: "char \<Rightarrow> string \<Rightarrow> string \<Rightarrow> string" where
  "replace_char old new s = concat (map (\<lambda>c. if c = old then new else [c]) s)"

text \<open>
  \<^verbatim>\<open>html.escape(s, quote=True)\<close>, the five replacements in the order of the library, and
  \<^verbatim>\<open>HTMLRenderer._escape\<close>, which calls it.
\<close>

definition html_escape :: "string \<Rightarrow> string" where
  "html_escape s0 =
     (let s1 = replace_char (CHR ''&'') ''&amp;'' s0;
          s2 = replace_char (CHR ''<'') ''&lt;'' s1;
          s3 = replace_char (CHR ''>'') ''&gt;'' s2;
          s4 = replace_char DQUOTE ''&quot;'' s3;
          s5 = replace_char (CHR 0x27) ''&#x27;'' s4
      in s5)"

definition escape :: "string \<Rightarrow> string" where
  "escape text = html_escape text"

text \<open>
  The argument \<^verbatim>\<open>sale_info\<close> is a dict from field names to values; \<^verbatim>\<open>to_dict\<close> fills it with
  \<^verbatim>\<open>str\<close> or \<^verbatim>\<open>None\<close>, here \<^typ>\<open>string option\<close>. \<^verbatim>\<open>sale_info.get(k)\<close> is tested for truth: a
  missing key, \<^verbatim>\<open>None\<close> and the empty string are false. \<^verbatim>\<open>_escape(None)\<close> raises
  \<^verbatim>\<open>AttributeError\<close>.
\<close>

type_synonym sale_info = "string \<Rightarrow> string option option"

definition get_truthy :: "sale_info \<Rightarrow> string \<Rightarrow> string option" where
  "get_truthy sale_info k =
     (case sale_info k of Some (Some v) \<Rightarrow> (if v = [] then None else Some v) | _ \<Rightarrow> None)"

definition join_lines :: "string list \<Rightarrow> string" where
  "join_lines xs = (case xs of [] \<Rightarrow> [] | x # r \<Rightarrow> x @ concat (map (\<lambda>l. CHR 0x0A # l) r))"

definition render_domain :: "sale_info \<Rightarrow> exc + string" where
  "render_domain sale_info =
     (case sale_info ''domain'' of
        None \<Rightarrow> Inr ''<h2>Domain for Sale</h2>''
      | Some None \<Rightarrow> Inl (OtherException ''AttributeError'')
      | Some (Some d) \<Rightarrow> Inr (''<h2>Domain for Sale: '' @ escape d @ ''</h2>''))"

definition render_price :: "sale_info \<Rightarrow> string list" where
  \<open>render_price sale_info =
     (case get_truthy sale_info ''price'' of
        None \<Rightarrow> []
      | Some p \<Rightarrow> [''<div class="sale-price"><strong>Price:</strong> '' @ escape p @ ''</div>''])\<close>

definition render_contact :: "sale_info \<Rightarrow> string list" where
  \<open>render_contact sale_info =
     (case get_truthy sale_info ''contact'' of
        None \<Rightarrow> []
      | Some c \<Rightarrow>
          (let contact = escape c
           in if take 7 contact = ''mailto:'' then
                (let email = escape (drop 7 contact)
                 in [''<div class="sale-contact"><strong>Contact:</strong> ''
                     @ ''<a href="'' @ contact @ ''">'' @ email @ ''</a></div>''])
              else
                [''<div class="sale-contact"><strong>Contact:</strong> '' @ contact @ ''</div>'']))\<close>

definition render_url :: "sale_info \<Rightarrow> string list" where
  \<open>render_url sale_info =
     (case get_truthy sale_info ''url'' of
        None \<Rightarrow> []
      | Some u \<Rightarrow>
          (let escaped = escape u
           in [''<div class="sale-url"><strong>More Info:</strong> ''
               @ ''<a href="'' @ escaped @ ''" target="_blank" rel="noopener noreferrer">''
               @ escaped @ ''</a></div>'']))\<close>

definition render_expires :: "sale_info \<Rightarrow> string list" where
  \<open>render_expires sale_info =
     (case get_truthy sale_info ''expires'' of
        None \<Rightarrow> []
      | Some e \<Rightarrow> [''<div class="sale-expires"><strong>Expires:</strong> '' @ escape e @ ''</div>''])\<close>

text \<open>\<^verbatim>\<open>HTMLRenderer.render_sale_info\<close>: the lines appended to \<^verbatim>\<open>html_output\<close>, joined.\<close>

definition render_sale_info :: "sale_info \<Rightarrow> exc + string" where
  \<open>render_sale_info sale_info =
     (case render_domain sale_info of
        Inl e \<Rightarrow> Inl e
      | Inr heading \<Rightarrow>
          Inr (join_lines
                ([heading, ''<div class="domain-sale-info">'']
                 @ render_price sale_info @ render_contact sale_info @ render_url sale_info
                 @ render_expires sale_info @ [''</div>''])))\<close>

text \<open>\<^verbatim>\<open>HTMLRenderer.render_error\<close>.\<close>

definition render_error :: "string \<Rightarrow> string" where
  \<open>render_error error_message =
     ''<div class="domain-sale-error">'' @ escape error_message @ ''</div>''\<close>

subsection \<open>Example inputs\<close>

text \<open>
  The record of the first end-to-end scenario of the specification, and an environment that
  answers every DNS query with \<open>dns\<close> and every RDAP query with \<open>rdap\<close>, on 3 November 2026,
  with the clock standing at \<open>t\<close>.
\<close>

definition example_record :: string where
  \<open>example_record =
     ''v=FORSALE1;{"v":"1","price":"USD:1000","url":"https://sale.example","contact":"mailto:o@example.com"}''\<close>

definition example_dict :: pydict where
  "example_dict =
     [(''v'', PStr ''1''), (''price'', PStr ''USD:1000''), (''url'', PStr ''https://sale.example''),
      (''contact'', PStr ''mailto:o@example.com'')]"

definition example_env :: "(exc + string list list) \<Rightarrow> (exc + pyval) \<Rightarrow> real \<Rightarrow> pyenv" where
  "example_env dns rdap t =
     \<lparr>today = (2026, 11, 3), nfkc_normalize = (\<lambda>s. s), bracketed_host_ok = (\<lambda>h. True),
      resolve = (\<lambda>name. dns), get_rdap_data = (\<lambda>d. rdap),
      now_dns_get = t, now_dns_set = t, now_rdap_get = t, now_rdap_set = t\<rparr>"

subsection \<open>Auxiliary notions for the properties\<close>

text \<open>The two exceptions the model of the decoder can raise.\<close>

definition json_error :: "exc \<Rightarrow> bool" where
  "json_error e \<longleftrightarrow> e = JSONDecodeError \<or> e = RecursionError"

text \<open>
  Reading an HTML text as the tokenizer does, as far as the renderer's output goes: a
  character is read as text (\<open>Data\<close>), inside a tag (\<open>Tag\<close>: element names, attribute names,
  the delimiters) or inside a double-quoted attribute value (\<open>AttrValue\<close>).
\<close>

datatype html_ctx = Data | Tag | AttrValue

fun html_step :: "html_ctx \<Rightarrow> char \<Rightarrow> html_ctx" where
  "html_step Data c = (if c = CHR ''<'' then Tag else Data)"
| "html_step Tag c = (if c = CHR ''>'' then Data else if c = DQUOTE then AttrValue else Tag)"
| "html_step AttrValue c = (if c = DQUOTE then Tag else AttrValue)"

text \<open>
  The markup of a text: what is left when the characters read as text and the characters
  read inside attribute values are taken out. Element names, attribute names and anything
  that could be a script element or an event handler are part of the markup.
\<close>

fun markup :: "html_ctx \<Rightarrow> string \<Rightarrow> string" where
  "markup ctx [] = []"
| "markup ctx (c # s) =
     (if (ctx = Data \<and> html_step ctx c = Data) \<or> (ctx = AttrValue \<and> html_step ctx c = AttrValue)
      then markup (html_step ctx c) s
      else c # markup (html_step ctx c) s)"

text \<open>
  The markup the renderer is meant to produce. It depends on which fields are present and on
  whether the contact is a \<^verbatim>\<open>mailto:\<close> address, and on nothing else of the input.
\<close>

definition sale_info_markup :: "sale_info \<Rightarrow> string" where
  \<open>sale_info_markup sale_info =
     ''<h2></h2>'' @ ''<div class="">''
     @ (case get_truthy sale_info ''price'' of
          None \<Rightarrow> [] | Some p \<Rightarrow> ''<div class=""><strong></strong></div>'')
     @ (case get_truthy sale_info ''contact'' of
          None \<Rightarrow> []
        | Some c \<Rightarrow>
            if take 7 (escape c) = ''mailto:''
            then ''<div class=""><strong></strong><a href=""></a></div>''
            else ''<div class=""><strong></strong></div>'')
     @ (case get_truthy sale_info ''url'' of
          None \<Rightarrow> []
        | Some u \<Rightarrow> ''<div class=""><strong></strong><a href="" target="" rel=""></a></div>'')
     @ (case get_truthy sale_info ''expires'' of
          None \<Rightarrow> [] | Some e \<Rightarrow> ''<div class=""><strong></strong></div>'')
     @ ''</div>''\<close>

text \<open>
  A scanner result that is no \<^verbatim>\<open>RecursionError\<close> and, when it is a value, leaves a rest shorter
  than the input \<open>s\<close>.
\<close>

definition consumes :: "exc + (pyval \<times> string) \<Rightarrow> string \<Rightarrow> bool" where
  "consumes res s \<longleftrightarrow>
     res \<noteq> Inl RecursionError \<and> (\<forall>v r. res = Inr (v, r) \<longrightarrow> length r < length s)"

section \<open>Properties\<close>

subsection \<open>The cache\<close>

lemma cache_get_miss_entry: "cache_get c key now = (None, c') \<Longrightarrow> entries c' key = None"
  by (auto simp: cache_get_def split: option.splits if_splits prod.splits)

lemma cache_get_other: "k \<noteq> key \<Longrightarrow> entries (snd (cache_get c key now)) k = entries c k"
  by (auto simp: cache_get_def split: option.splits if_splits prod.splits)

lemma cache_get_ttl: "ttl (snd (cache_get c key now)) = ttl c"
  by (auto simp: cache_get_def split: option.splits if_splits prod.splits)

lemma float_overflow_300 [simp]: "\<not> float_overflow 300" "\<not> float_overflow 60"
  by (simp_all add: float_overflow_def)

lemma cache_set_Inr:
  "cache_set c key v now = Inr c' \<longleftrightarrow>
     \<not> float_overflow (ttl c) \<and> c' = c\<lparr>entries := (entries c)(key \<mapsto> (v, now + real_of_int (ttl c)))\<rparr>"
  by (auto simp: cache_set_def)

lemma cache_set_Inl:
  "cache_set c key v now = Inl e \<longleftrightarrow> float_overflow (ttl c) \<and> e = OverflowError"
  by (auto simp: cache_set_def)

subsection \<open>The facade\<close>

lemma cache_get_ttl2: "cache_get c key now = (r, c') \<Longrightarrow> ttl c' = ttl c"
  by (auto simp: cache_get_def split: option.splits if_splits prod.splits)

lemma cached_ttl: "cached c kf f t1 t2 a w = (r, c', w') \<Longrightarrow> ttl c' = ttl c"
  by (auto simp: cached_def Let_def cache_set_def split: prod.splits option.splits sum.splits if_splits
      dest: cache_get_ttl2)

lemma lookup_txt_records_frame:
  assumes "lookup_txt_records env d st = (r, st')"
  shows "ttl (dns_cache st') = ttl (dns_cache st)" and "rdap_cache st' = rdap_cache st"
  using assms by (auto simp: lookup_txt_records_def split: prod.splits dest: cached_ttl)

lemma check_rdap_status_frame:
  assumes "check_rdap_status env d st = (r, st')"
  shows "ttl (rdap_cache st') = ttl (rdap_cache st)" and "dns_cache st' = dns_cache st"
  using assms by (auto simp: check_rdap_status_def split: prod.splits dest: cached_ttl)

text \<open>The validator raises one of its three exceptions and nothing else.\<close>

lemma extract_except_cases: "extract_except e = SchemaValidationError \<or> extract_except e = FieldValidationError"
  by (simp add: extract_except_def)

lemma extract_raises:
  assumes "extract_and_validate_record env txt = Inl e"
  shows "e = SizeExceededError \<or> e = SchemaValidationError \<or> e = FieldValidationError"
  using assms extract_except_cases
  by (auto simp: extract_and_validate_record_def Let_def split: if_splits sum.splits pyval.splits)

lemma process_records_no_raise: "fst (process_records env txts rd errs) = None"
proof (induction txts arbitrary: rd errs)
  case Nil
  then show ?case by simp
next
  case (Cons t txts)
  show ?case
  proof (cases "extract_and_validate_record env t")
    case (Inl e)
    then show ?thesis
      using extract_raises [OF Inl] Cons.IH by auto
  next
    case (Inr r)
    then show ?thesis
      using Cons.IH by simp
  qed
qed

lemma check_for_sale_status_raises:
  "fst (check_for_sale_status env d w) = Inl e \<Longrightarrow> e = RDAPError \<or> e = TimeoutError"
  by (auto simp: check_for_sale_status_def Let_def split: sum.splits if_splits)

text \<open>
  An exception leaves the wrapper in two ways: the wrapped function raised it, or the function
  returned and \<^verbatim>\<open>set\<close> raised \<^verbatim>\<open>OverflowError\<close> on a TTL beyond the range of a float.
\<close>

lemma cached_raises:
  assumes "cached c kf f t1 t2 a w = (Inl e, c', w')"
  shows "fst (f a w) = Inl e
         \<or> (e = OverflowError \<and> float_overflow (ttl c) \<and> (\<exists>v. fst (f a w) = Inr v))"
  using assms
  by (auto simp: cached_def Let_def cache_set_def
      split: prod.splits option.splits sum.splits if_splits dest: cache_get_ttl2)

lemma check_rdap_status_raises:
  assumes "check_rdap_status env d st = (Inl e, st')"
  shows "e = RDAPError \<or> e = TimeoutError
         \<or> (e = OverflowError \<and> float_overflow (ttl (rdap_cache st)))"
proof -
  from assms obtain c w where "cached (rdap_cache st) (\<lambda>dn. ''rdap:'' @ dn) (check_for_sale_status env)
             (now_rdap_get env) (now_rdap_set env) d (world st) = (Inl e, c, w)"
    by (auto simp: check_rdap_status_def split: prod.splits)
  from cached_raises [OF this] show ?thesis
    using check_for_sale_status_raises [of env d "world st" e] by blast
qed


text \<open>The outcomes of \<^verbatim>\<open>get_domain_sale_status\<close>, one lemma for each way through the body.\<close>

lemma status_lookup_raises:
  assumes "lookup_txt_records env d (update_cache_ttl (effective_options opt) st) = (Inl e, st1)"
  shows "get_domain_sale_status env st d opt = (status_except e (new_response d), st1)"
  using assms by (simp add: get_domain_sale_status_def try_body_def)

lemma status_no_record:
  assumes "lookup_txt_records env d (update_cache_ttl (effective_options opt) st) = (Inr (txts, src), st1)"
    and "process_records env txts None [] = (None, rd, errs)"
    and "\<not> truthy rd"
  shows "get_domain_sale_status env st d opt = ((new_response d)\<lparr>errors := errs\<rparr>, st1)"
  using assms by (cases rd) (simp_all add: get_domain_sale_status_def try_body_def new_response_def)

lemma status_dns_only:
  assumes "lookup_txt_records env d (update_cache_ttl (effective_options opt) st) = (Inr (txts, src), st1)"
    and "process_records env txts None [] = (None, Some r, errs)"
    and "truthy (Some r)"
    and "\<not> enable_rdap_check (effective_options opt)"
  shows "get_domain_sale_status env st d opt =
           ((new_response d)\<lparr>errors := errs, for_sale := True,
               price := dict_get r ''price'', url := dict_get r ''url'',
               contact := dict_get r ''contact'', expires := dict_get r ''expires'',
               source := SourceList src\<rparr>, st1)"
  using assms by (simp add: get_domain_sale_status_def try_body_def new_response_def)

lemma status_rdap_true:
  assumes "lookup_txt_records env d (update_cache_ttl (effective_options opt) st) = (Inr (txts, src), st1)"
    and "process_records env txts None [] = (None, Some r, errs)"
    and "truthy (Some r)"
    and "enable_rdap_check (effective_options opt)"
    and "check_rdap_status env d st1 = (Inr True, st2)"
  shows "get_domain_sale_status env st d opt =
           ((new_response d)\<lparr>errors := errs, for_sale := True,
               price := dict_get r ''price'', url := dict_get r ''url'',
               contact := dict_get r ''contact'', expires := dict_get r ''expires'',
               source := SourceList src\<rparr>,
            st2\<lparr>world := list_append src ''rdap'' (world st2)\<rparr>)"
  using assms by (simp add: get_domain_sale_status_def try_body_def new_response_def)

lemma status_rdap_false:
  assumes "lookup_txt_records env d (update_cache_ttl (effective_options opt) st) = (Inr (txts, src), st1)"
    and "process_records env txts None [] = (None, Some r, errs)"
    and "truthy (Some r)"
    and "enable_rdap_check (effective_options opt)"
    and "check_rdap_status env d st1 = (Inr False, st2)"
  shows "get_domain_sale_status env st d opt = ((new_response d)\<lparr>errors := errs\<rparr>, st2)"
  using assms by (simp add: get_domain_sale_status_def try_body_def new_response_def)

lemma status_rdap_raises:
  assumes "lookup_txt_records env d (update_cache_ttl (effective_options opt) st) = (Inr (txts, src), st1)"
    and "process_records env txts None [] = (None, Some r, errs)"
    and "truthy (Some r)"
    and "enable_rdap_check (effective_options opt)"
    and "check_rdap_status env d st1 = (Inl e, st2)"
    and "e = RDAPError \<or> e = TimeoutError"
  shows "get_domain_sale_status env st d opt =
           ((new_response d)\<lparr>errors := errs @ [RDAPCheckFailed e]\<rparr>, st2)"
  using assms by (auto simp add: get_domain_sale_status_def try_body_def new_response_def)

lemma status_rdap_overflow:
  assumes "lookup_txt_records env d (update_cache_ttl (effective_options opt) st) = (Inr (txts, src), st1)"
    and "process_records env txts None [] = (None, Some r, errs)"
    and "truthy (Some r)"
    and "enable_rdap_check (effective_options opt)"
    and "check_rdap_status env d st1 = (Inl e, st2)"
    and "e \<noteq> RDAPError" and "e \<noteq> TimeoutError"
  shows "get_domain_sale_status env st d opt =
           (status_except e ((new_response d)\<lparr>errors := errs\<rparr>), st2)"
  using assms by (simp add: get_domain_sale_status_def try_body_def new_response_def)


lemma status_cases [case_names lookup_raises no_record dns_only rdap_true rdap_false rdap_raises
    rdap_overflow]:
  fixes env st d opt
  defines "st0 \<equiv> update_cache_ttl (effective_options opt) st"
  obtains
    e st1 where "lookup_txt_records env d st0 = (Inl e, st1)"
      and "get_domain_sale_status env st d opt = (status_except e (new_response d), st1)"
  | txts src st1 rd errs where "lookup_txt_records env d st0 = (Inr (txts, src), st1)"
      and "process_records env txts None [] = (None, rd, errs)" and "\<not> truthy rd"
      and "get_domain_sale_status env st d opt = ((new_response d)\<lparr>errors := errs\<rparr>, st1)"
  | txts src st1 r errs where "lookup_txt_records env d st0 = (Inr (txts, src), st1)"
      and "process_records env txts None [] = (None, Some r, errs)" and "truthy (Some r)"
      and "\<not> enable_rdap_check (effective_options opt)"
      and "get_domain_sale_status env st d opt =
           ((new_response d)\<lparr>errors := errs, for_sale := True,
               price := dict_get r ''price'', url := dict_get r ''url'',
               contact := dict_get r ''contact'', expires := dict_get r ''expires'',
               source := SourceList src\<rparr>, st1)"
  | txts src st1 r errs st2 where "lookup_txt_records env d st0 = (Inr (txts, src), st1)"
      and "process_records env txts None [] = (None, Some r, errs)" and "truthy (Some r)"
      and "enable_rdap_check (effective_options opt)"
      and "check_rdap_status env d st1 = (Inr True, st2)"
      and "get_domain_sale_status env st d opt =
           ((new_response d)\<lparr>errors := errs, for_sale := True,
               price := dict_get r ''price'', url := dict_get r ''url'',
               contact := dict_get r ''contact'', expires := dict_get r ''expires'',
               source := SourceList src\<rparr>,
            st2\<lparr>world := list_append src ''rdap'' (world st2)\<rparr>)"
  | txts src st1 r errs st2 where "lookup_txt_records env d st0 = (Inr (txts, src), st1)"
      and "process_records env txts None [] = (None, Some r, errs)" and "truthy (Some r)"
      and "enable_rdap_check (effective_options opt)"
      and "check_rdap_status env d st1 = (Inr False, st2)"
      and "get_domain_sale_status env st d opt = ((new_response d)\<lparr>errors := errs\<rparr>, st2)"
  | txts src st1 r errs st2 e where "lookup_txt_records env d st0 = (Inr (txts, src), st1)"
      and "process_records env txts None [] = (None, Some r, errs)" and "truthy (Some r)"
      and "enable_rdap_check (effective_options opt)"
      and "check_rdap_status env d st1 = (Inl e, st2)"
      and "e = RDAPError \<or> e = TimeoutError"
      and "get_domain_sale_status env st d opt =
           ((new_response d)\<lparr>errors := errs @ [RDAPCheckFailed e]\<rparr>, st2)"
  | txts src st1 r errs st2 where "lookup_txt_records env d st0 = (Inr (txts, src), st1)"
      and "process_records env txts None [] = (None, Some r, errs)" and "truthy (Some r)"
      and "enable_rdap_check (effective_options opt)"
      and "check_rdap_status env d st1 = (Inl OverflowError, st2)"
      and "float_overflow (ttl (rdap_cache st1))"
      and "get_domain_sale_status env st d opt =
           ((new_response d)\<lparr>errors := errs @ [UnexpectedError OverflowError]\<rparr>, st2)"
proof -
  obtain L st1 where L: "lookup_txt_records env d st0 = (L, st1)"
    by (cases "lookup_txt_records env d st0")
  show thesis
  proof (cases L)
    case (Inl e)
    then show ?thesis
      using L that(1) status_lookup_raises [of env d opt st e st1] by (simp add: st0_def)
  next
    case (Inr a)
    obtain txts src where a: "a = (txts, src)" by (cases a)
    note L' = L [unfolded Inr a]
    obtain x rd errs where P: "process_records env txts None [] = (x, rd, errs)"
      by (cases "process_records env txts None []")
    have "x = None"
      using process_records_no_raise [of env txts None "[]"] P by simp
    note P' = P [unfolded this]
    show ?thesis
    proof (cases "truthy rd")
      case False
      then show ?thesis
        using that(2) [OF L' P'] status_no_record [OF L' [unfolded st0_def] P'] by simp
    next
      case True
      then obtain r where rd: "rd = Some r"
        by (cases rd) (simp_all add: truthy_def)
      note P'' = P' [unfolded rd]
      note T = True [unfolded rd]
      show ?thesis
      proof (cases "enable_rdap_check (effective_options opt)")
        case False
        then show ?thesis
          using that(3) [OF L' P'' T] status_dns_only [OF L' [unfolded st0_def] P'' T] by simp
      next
        case E: True
        obtain R st2 where R: "check_rdap_status env d st1 = (R, st2)"
          by (cases "check_rdap_status env d st1")
        show ?thesis
        proof (cases R)
          case (Inl e)
          note R' = R [unfolded Inl]
          show ?thesis
          proof (cases "e = RDAPError \<or> e = TimeoutError")
            case True
            show ?thesis
              using that(6) [OF L' P'' T E R' True]
                status_rdap_raises [OF L' [unfolded st0_def] P'' T E R' True] by simp
          next
            case False
            then have e: "e = OverflowError" and o: "float_overflow (ttl (rdap_cache st1))"
              using check_rdap_status_raises [OF R'] by auto
            have "get_domain_sale_status env st d opt =
                    ((new_response d)\<lparr>errors := errs @ [UnexpectedError OverflowError]\<rparr>, st2)"
              using status_rdap_overflow [OF L' [unfolded st0_def] P'' T E R'] e
              by (simp add: status_except_def new_response_def)
            then show ?thesis
              using that(7) [OF L' P'' T E R' [unfolded e] o] by simp
          qed
        next
          case (Inr b)
          show ?thesis
          proof (cases b)
            case True
            have R': "check_rdap_status env d st1 = (Inr True, st2)"
              using R Inr True by simp
            show ?thesis
              using that(4) [OF L' P'' T E R'] status_rdap_true [OF L' [unfolded st0_def] P'' T E R']
              by simp
          next
            case False
            have R': "check_rdap_status env d st1 = (Inr False, st2)"
              using R Inr False by simp
            show ?thesis
              using that(5) [OF L' P'' T E R'] status_rdap_false [OF L' [unfolded st0_def] P'' T E R']
              by simp
          qed
        qed
      qed
    qed
  qed
qed


lemma status_ttl:
  "ttl (dns_cache (snd (get_domain_sale_status env st d opt)))
     = ttl (dns_cache (update_cache_ttl (effective_options opt) st))"
  "ttl (rdap_cache (snd (get_domain_sale_status env st d opt)))
     = ttl (rdap_cache (update_cache_ttl (effective_options opt) st))"
proof -
  have "ttl (dns_cache (snd (get_domain_sale_status env st d opt)))
          = ttl (dns_cache (update_cache_ttl (effective_options opt) st))
        \<and> ttl (rdap_cache (snd (get_domain_sale_status env st d opt)))
          = ttl (rdap_cache (update_cache_ttl (effective_options opt) st))"
  proof (cases rule: status_cases [of env d opt st])
    case (lookup_raises e st1)
    then show ?thesis
      using lookup_txt_records_frame [OF lookup_raises(1)] by simp
  next
    case (no_record txts src st1 rd errs)
    then show ?thesis
      using lookup_txt_records_frame [OF no_record(1)] by simp
  next
    case (dns_only txts src st1 r errs)
    then show ?thesis
      using lookup_txt_records_frame [OF dns_only(1)] by simp
  next
    case (rdap_true txts src st1 r errs st2)
    then show ?thesis
      using lookup_txt_records_frame [OF rdap_true(1)] check_rdap_status_frame [OF rdap_true(5)]
      by simp
  next
    case (rdap_false txts src st1 r errs st2)
    then show ?thesis
      using lookup_txt_records_frame [OF rdap_false(1)] check_rdap_status_frame [OF rdap_false(5)]
      by simp
  next
    case (rdap_raises txts src st1 r errs st2 e)
    then show ?thesis
      using lookup_txt_records_frame [OF rdap_raises(1)] check_rdap_status_frame [OF rdap_raises(5)]
      by simp
  next
    case (rdap_overflow txts src st1 r errs st2)
    then show ?thesis
      using lookup_txt_records_frame [OF rdap_overflow(1)] check_rdap_status_frame [OF rdap_overflow(5)]
      by simp
  qed
  then show "ttl (dns_cache (snd (get_domain_sale_status env st d opt)))
     = ttl (dns_cache (update_cache_ttl (effective_options opt) st))"
    and "ttl (rdap_cache (snd (get_domain_sale_status env st d opt)))
     = ttl (rdap_cache (update_cache_ttl (effective_options opt) st))"
    by simp_all
qed

lemma process_records_accepts:
  assumes "process_records env txts rd0 errs0 = (x, Some r, errs)"
  shows "rd0 = Some r \<or> (\<exists>txt \<in> set txts. extract_and_validate_record env txt = Inr (Some r))"
  using assms
proof (induction txts arbitrary: rd0 errs0)
  case Nil
  then show ?case by simp
next
  case (Cons t txts)
  show ?case
  proof (cases "extract_and_validate_record env t")
    case (Inl e)
    then show ?thesis
      using Cons.prems Cons.IH [of rd0 "errs0 @ [Str e]"]
      by (auto split: if_splits)
  next
    case (Inr rd)
    show ?thesis
    proof (cases "truthy rd")
      case True
      then show ?thesis
        using Cons.prems Inr by auto
    next
      case False
      then have "process_records env txts rd errs0 = (x, Some r, errs)"
        using Cons.prems Inr by simp
      from Cons.IH [OF this] show ?thesis
        using Inr by auto
    qed
  qed
qed

lemma process_records_errors:
  assumes "process_records env txts rd0 errs0 = (x, rd, errs)"
  shows "\<exists>new. errs = errs0 @ new
           \<and> set new \<subseteq> {Str SizeExceededError, Str SchemaValidationError, Str FieldValidationError}"
  using assms
proof (induction txts arbitrary: rd0 errs0)
  case Nil
  then show ?case by simp
next
  case (Cons t txts)
  show ?case
  proof (cases "extract_and_validate_record env t")
    case (Inl e)
    show ?thesis
    proof (cases "e = SchemaValidationError \<or> e = FieldValidationError \<or> e = SizeExceededError")
      case True
      then have "process_records env txts rd0 (errs0 @ [Str e]) = (x, rd, errs)"
        using Cons.prems Inl by simp
      from Cons.IH [OF this] obtain new where "errs = (errs0 @ [Str e]) @ new"
        and "set new \<subseteq> {Str SizeExceededError, Str SchemaValidationError, Str FieldValidationError}"
        by blast
      then have "errs = errs0 @ (Str e # new)
                 \<and> set (Str e # new) \<subseteq> {Str SizeExceededError, Str SchemaValidationError, Str FieldValidationError}"
        using True by auto
      then show ?thesis by blast
    next
      case False
      then show ?thesis
        using Cons.prems Inl by simp
    qed
  next
    case (Inr rd')
    show ?thesis
    proof (cases "truthy rd'")
      case True
      then show ?thesis
        using Cons.prems Inr by simp
    next
      case False
      then have "process_records env txts rd' errs0 = (x, rd, errs)"
        using Cons.prems Inr by simp
      from Cons.IH [OF this] show ?thesis .
    qed
  qed
qed

lemma status_except_fields [simp]:
  "for_sale (status_except e r) = for_sale r"
  "source (status_except e r) = source r"
  "domain (status_except e r) = domain r"
  "price (status_except e r) = price r"
  "url (status_except e r) = url r"
  "contact (status_except e r) = contact r"
  "expires (status_except e r) = expires r"
  by (simp_all add: status_except_def)

lemma status_except_errors:
  "errors (status_except e r) =
     errors r @ [if e = DNSSECValidationError then DNSSECFailed e
                 else if e = TimeoutError then TimeoutMsg e else UnexpectedError e]"
  by (simp add: status_except_def)

lemma new_response_fields [simp]:
  "for_sale (new_response d) = False"
  "source (new_response d) = SourceStr ''dns''"
  "domain (new_response d) = d"
  "errors (new_response d) = []"
  "price (new_response d) = None"
  "url (new_response d) = None"
  "contact (new_response d) = None"
  "expires (new_response d) = None"
  by (simp_all add: new_response_def)

lemma list_append_heap: "heap (list_append r x w) r = heap w r @ [x]"
  by (simp add: list_append_def)

lemma cached_miss:
  assumes "fst (cache_get c (kf a) t1) = None"
  shows "fst (cached c kf f t1 t2 a w) =
           (case fst (f a w) of
              Inl e \<Rightarrow> Inl e
            | Inr v \<Rightarrow> if float_overflow (ttl c) then Inl OverflowError else Inr v)"
    and "snd (snd (cached c kf f t1 t2 a w)) = snd (f a w)"
  using assms
  by (auto simp: cached_def Let_def cache_set_def
      split: prod.splits option.splits sum.splits dest: cache_get_ttl2)


lemma lookup_txt_records_miss:
  assumes "fst (cache_get (dns_cache st) (''dns:'' @ d) (now_dns_get env)) = None"
  shows "fst (lookup_txt_records env d st) =
           (case fst (lookup_for_sale_record env d (world st)) of
              Inl e \<Rightarrow> Inl e
            | Inr x \<Rightarrow> if float_overflow (ttl (dns_cache st)) then Inl OverflowError else Inr x)"
    and "world (snd (lookup_txt_records env d st)) = snd (lookup_for_sale_record env d (world st))"
  using cached_miss [of "dns_cache st" "\<lambda>dn. ''dns:'' @ dn" d "now_dns_get env"
      "lookup_for_sale_record env" "now_dns_set env" "world st", OF assms]
  by (auto simp: lookup_txt_records_def split: prod.splits)

lemma lookup_for_sale_record_resolver_raises:
  assumes "resolve env (FOR_SALE_PREFIX @ ''.'' @ d) = Inl e" and "e \<noteq> NoAnswer" and "e \<noteq> NXDOMAIN"
  shows "fst (lookup_for_sale_record env d w)
           = Inl (if e = ResolverTimeout then TimeoutError else DNSSECValidationError)"
  using assms by (simp add: lookup_for_sale_record_def lookup_with_dnssec_def Let_def)

lemma collect_txt_raises: "collect_txt answers = Inl e \<Longrightarrow> e = UnicodeDecodeError"
  by (induction answers) (auto simp: decode_utf8_def split: if_splits sum.splits)

lemma lookup_for_sale_record_decode_raises:
  assumes "resolve env (FOR_SALE_PREFIX @ ''.'' @ d) = Inr answers" and "collect_txt answers = Inl e"
  shows "fst (lookup_for_sale_record env d w) = Inl UnicodeDecodeError"
  using assms collect_txt_raises [OF assms(2)]
  by (simp add: lookup_for_sale_record_def lookup_with_dnssec_def Let_def)

lemma status_domain: "domain (fst (get_domain_sale_status env st d opt)) = d"
  by (cases rule: status_cases [of env d opt st]) simp_all

lemma lookup_for_sale_record_answer:
  assumes "resolve env (FOR_SALE_PREFIX @ ''.'' @ d) = Inr answers" and "collect_txt answers = Inr txts"
  shows "lookup_for_sale_record env d w =
           (Inr (txts, next_ref w),
            w\<lparr>dns_lookups := dns_lookups w + 1, heap := (heap w)(next_ref w := [''dns'']),
              next_ref := next_ref w + 1\<rparr>)"
  using assms
  by (simp add: lookup_for_sale_record_def lookup_with_dnssec_def new_list_def Let_def)

lemma lookup_for_sale_record_returns:
  assumes "lookup_for_sale_record env d w = (Inr (txts, src), w')"
  shows "src = next_ref w" and "heap w' = (heap w)(next_ref w := [''dns''])"
    and "next_ref w' = next_ref w + 1" and "dns_lookups w' = dns_lookups w + 1"
    and "rdap_checks w' = rdap_checks w"
  using assms
  by (auto simp: lookup_for_sale_record_def new_list_def Let_def split: sum.splits if_splits)

lemma check_for_sale_status_world:
  "snd (check_for_sale_status env d w) = w\<lparr>rdap_checks := rdap_checks w + 1\<rparr>"
  by (auto simp: check_for_sale_status_def Let_def split: sum.splits)

lemma cached_world:
  assumes "cached c kf f t1 t2 a w = (r, c', w')"
  shows "w' = w \<or> w' = snd (f a w)"
  using assms by (auto simp: cached_def Let_def split: prod.splits option.splits sum.splits)

lemma check_rdap_status_world:
  assumes "check_rdap_status env d st = (r, st')"
  shows "heap (world st') = heap (world st)" and "next_ref (world st') = next_ref (world st)"
    and "dns_lookups (world st') = dns_lookups (world st)"
proof -
  obtain c w where c: "cached (rdap_cache st) (\<lambda>dn. ''rdap:'' @ dn) (check_for_sale_status env)
             (now_rdap_get env) (now_rdap_set env) d (world st) = (r, c, w)" and w: "world st' = w"
    using assms by (auto simp: check_rdap_status_def split: prod.splits)
  from cached_world [OF c] have "w = world st \<or> w = (world st)\<lparr>rdap_checks := rdap_checks (world st) + 1\<rparr>"
    by (simp add: check_for_sale_status_world)
  then show "heap (world st') = heap (world st)" and "next_ref (world st') = next_ref (world st)"
    and "dns_lookups (world st') = dns_lookups (world st)"
    using w by auto
qed

lemma lookup_txt_records_miss_returns:
  assumes "fst (cache_get (dns_cache st) (''dns:'' @ d) (now_dns_get env)) = None"
    and "lookup_txt_records env d st = (Inr (txts, src), st1)"
  shows "heap (world st1) src = [''dns'']"
proof -
  have "fst (lookup_for_sale_record env d (world st)) = Inr (txts, src)"
    and "snd (lookup_for_sale_record env d (world st)) = world st1"
    using lookup_txt_records_miss [OF assms(1)] assms(2)
    by (auto split: sum.splits if_splits)
  then have "lookup_for_sale_record env d (world st) = (Inr (txts, src), world st1)"
    by (simp add: prod_eq_iff)
  from lookup_for_sale_record_returns(1,2) [OF this] show ?thesis
    by simp
qed












lemma list_append_counters [simp]:
  "dns_lookups (list_append r x w) = dns_lookups w"
  "rdap_checks (list_append r x w) = rdap_checks w"
  by (simp_all add: list_append_def)


lemma transport_entries_not_Str [simp]:
  "DNSSECFailed e \<notin> range Str" "TimeoutMsg e \<notin> range Str" "UnexpectedError e \<notin> range Str"
  "RDAPCheckFailed e \<notin> range Str"
  by auto

subsection \<open>The validator\<close>

lemma validate_schema_required:
  assumes "validate_schema (PDict d) = Inr ()" and "k \<in> set REQUIRED_FIELDS"
  shows "\<exists>v. dict_get d k = Some v"
proof -
  have "k \<in> set (dict_keys d)"
    using assms by (auto simp: validate_schema_def split: if_splits)
  then have "k \<in> fst ` set d"
    by (simp add: dict_keys_def)
  then have "map_of d k \<noteq> None"
    by (simp add: map_of_eq_None_iff)
  then show ?thesis
    by (auto simp: dict_get_def)
qed

lemma validate_url_scheme:
  assumes "\<forall>r. urlparse env u = Inr r \<longrightarrow> scheme r \<noteq> ''https''"
  shows "validate_url env (PStr u) = Inl FieldValidationError"
  using assms by (auto simp: validate_url_def ALLOWED_URL_SCHEMES_def split: sum.splits)

lemma validate_contact_scheme:
  assumes "\<forall>r. urlparse env c = Inr r \<longrightarrow> scheme r \<noteq> ''mailto''"
  shows "validate_contact env (PStr c) = Inl FieldValidationError"
  using assms by (auto simp: validate_contact_def ALLOWED_CONTACT_SCHEMES_def split: sum.splits)

lemma validate_url_raises: "validate_url env v = Inl e \<Longrightarrow> e = FieldValidationError"
  by (auto simp: validate_url_def split: pyval.splits sum.splits if_splits)

lemma validate_fields_scheme:
  assumes schema: "validate_schema (PDict d) = Inr ()"
    and price: "dict_get d ''price'' = Some (PStr p)"
    and bad: "(dict_get d ''url'' = Some (PStr u)
                \<and> (\<forall>r. urlparse env u = Inr r \<longrightarrow> scheme r \<noteq> ''https''))
            \<or> (dict_get d ''contact'' = Some (PStr c)
                \<and> (\<forall>r. urlparse env c = Inr r \<longrightarrow> scheme r \<noteq> ''mailto''))"
  shows "validate_fields env d = Inl FieldValidationError"
proof -
  obtain v where v: "dict_get d ''v'' = Some v"
    using validate_schema_required [OF schema, of "''v''"] by (auto simp: REQUIRED_FIELDS_def)
  obtain uv where uv: "dict_get d ''url'' = Some uv"
    using validate_schema_required [OF schema, of "''url''"] by (auto simp: REQUIRED_FIELDS_def)
  obtain cv where cv: "dict_get d ''contact'' = Some cv"
    using validate_schema_required [OF schema, of "''contact''"] by (auto simp: REQUIRED_FIELDS_def)
  show ?thesis
  proof (cases "v \<noteq> PStr ''1'' \<or> \<not> price_pattern p")
    case True
    then show ?thesis
      using v price by (auto simp: validate_fields_def subscript_def)
  next
    case False
    show ?thesis
    proof (cases "validate_url env uv")
      case (Inl e)
      then show ?thesis
        using False v price uv validate_url_raises [OF Inl]
        by (simp add: validate_fields_def subscript_def)
    next
      case (Inr x)
      have "\<not> (uv = PStr u \<and> (\<forall>r. urlparse env u = Inr r \<longrightarrow> scheme r \<noteq> ''https''))"
      proof
        assume "uv = PStr u \<and> (\<forall>r. urlparse env u = Inr r \<longrightarrow> scheme r \<noteq> ''https'')"
        then have "validate_url env uv = Inl FieldValidationError"
          using validate_url_scheme [of env u] by simp
        then show False
          using Inr by simp
      qed
      then have "cv = PStr c" and "\<forall>r. urlparse env c = Inr r \<longrightarrow> scheme r \<noteq> ''mailto''"
        using bad uv cv by auto
      then have "validate_contact env cv = Inl FieldValidationError"
        using validate_contact_scheme [of env c] by simp
      then show ?thesis
        using False v price uv cv Inr by (simp add: validate_fields_def subscript_def)
    qed
  qed
qed

subsection \<open>The decoder\<close>

lemma prepend_Inl_iff [simp]: "prepend ch x = Inl e \<longleftrightarrow> x = Inl e"
  by (cases x) (auto simp: prepend_def)

lemma scanstring_raises: "scanstring s = Inl e \<Longrightarrow> e = JSONDecodeError"
proof (induction s rule: scanstring.induct)
  case 1
  then show ?case by simp
next
  case (2 c s)
  from "2.prems" show ?case
    apply (simp split: if_splits list.splits option.splits)
    using "2.IH" apply (auto split: if_splits)
    done
qed

lemma json_error_simps [simp]: "json_error JSONDecodeError" "json_error RecursionError"
  by (simp_all add: json_error_def)

lemma scanstring_json_error: "scanstring s = Inl e \<Longrightarrow> json_error e"
  by (auto dest: scanstring_raises)

lemma scan_once_Suc_raises:
  assumes Q: "\<forall>p s e. object_loop n p s = Inl e \<longrightarrow> json_error e"
    and R: "\<forall>vs s e. array_loop n vs s = Inl e \<longrightarrow> json_error e"
    and "scan_once (Suc n) s = Inl e"
  shows "json_error e"
  using assms(3)
  by (auto simp: Let_def split: list.splits if_splits sum.splits option.splits prod.splits
      dest: Q [rule_format] R [rule_format] scanstring_json_error)


lemma object_loop_Suc_raises:
  assumes P: "\<forall>s e. scan_once n s = Inl e \<longrightarrow> json_error e"
    and Q: "\<forall>p s e. object_loop n p s = Inl e \<longrightarrow> json_error e"
    and "object_loop (Suc n) pairs s = Inl e"
  shows "json_error e"
  using assms(3)
  by (auto simp: Let_def split: list.splits if_splits sum.splits option.splits prod.splits
      dest: P [rule_format] Q [rule_format] scanstring_json_error)

lemma array_loop_Suc_raises:
  assumes P: "\<forall>s e. scan_once n s = Inl e \<longrightarrow> json_error e"
    and R: "\<forall>vs s e. array_loop n vs s = Inl e \<longrightarrow> json_error e"
    and "array_loop (Suc n) vs s = Inl e"
  shows "json_error e"
  using assms(3)
  by (auto simp: Let_def split: list.splits if_splits sum.splits option.splits prod.splits
      dest: P [rule_format] R [rule_format])

lemma scan_raises_all:
  "(\<forall>s e. scan_once k s = Inl e \<longrightarrow> json_error e)
   \<and> (\<forall>p s e. object_loop k p s = Inl e \<longrightarrow> json_error e)
   \<and> (\<forall>vs s e. array_loop k vs s = Inl e \<longrightarrow> json_error e)"
proof (induction k)
  case 0
  show ?case by simp
next
  case (Suc n)
  then have P: "\<forall>s e. scan_once n s = Inl e \<longrightarrow> json_error e"
    and Q: "\<forall>p s e. object_loop n p s = Inl e \<longrightarrow> json_error e"
    and R: "\<forall>vs s e. array_loop n vs s = Inl e \<longrightarrow> json_error e"
    by simp_all
  show ?case
    using scan_once_Suc_raises [OF Q R] object_loop_Suc_raises [OF P Q] array_loop_Suc_raises [OF P R]
    by blast
qed

lemma json_loads_raises: "json_loads s = Inl e \<Longrightarrow> json_error e"
  using scan_raises_all [of "2 * length (skip_ws s) + 1"]
  by (auto simp: json_loads_def decode_def raw_decode_def split: if_splits sum.splits prod.splits)

lemma extract_except_not_field:
  "e \<noteq> FieldValidationError \<Longrightarrow> extract_except e = SchemaValidationError"
  by (simp add: extract_except_def)

text \<open>\<^verbatim>\<open>dict(pairs)\<close> keeps the last value given for a key.\<close>

lemma map_of_dict_set: "map_of (dict_set d k v) = (map_of d)(k \<mapsto> v)"
  by (induction d k v rule: dict_set.induct) (auto simp: fun_eq_iff)

lemma map_of_foldl_dict_set:
  "map_of (foldl (\<lambda>d (k, v). dict_set d k v) d0 pairs) = map_of (rev pairs @ d0)"
proof (induction pairs arbitrary: d0)
  case Nil
  then show ?case by simp
next
  case (Cons p pairs)
  obtain k v where p: "p = (k, v)" by (cases p)
  show ?case
    by (simp add: p Cons.IH map_of_dict_set fun_eq_iff map_add_def split: option.splits)
qed

lemma dict_of_pairs_last_wins: "dict_get (dict_of_pairs pairs) k = map_of (rev pairs) k"
  by (simp add: dict_get_def dict_of_pairs_def map_of_foldl_dict_set)

subsection \<open>The renderer\<close>

lemma replace_char_absent:
  assumes "c \<notin> set new" and "c = old \<or> c \<notin> set s"
  shows "c \<notin> set (replace_char old new s)"
  using assms by (auto simp: replace_char_def split: if_splits)

lemma escape_chars:
  "CHR ''<'' \<notin> set (escape s)" "CHR ''>'' \<notin> set (escape s)" "DQUOTE \<notin> set (escape s)"
  "CHR 0x27 \<notin> set (escape s)"
  unfolding escape_def html_escape_def Let_def DQUOTE_def
  by (intro replace_char_absent; simp)+

lemma markup_Data_append: "CHR ''<'' \<notin> set a \<Longrightarrow> markup Data (a @ b) = markup Data b"
  by (induction a) auto

lemma markup_AttrValue_append: "DQUOTE \<notin> set a \<Longrightarrow> markup AttrValue (a @ b) = markup AttrValue b"
  by (induction a) auto

lemma markup_escape [simp]:
  "markup Data (escape s @ b) = markup Data b"
  "markup AttrValue (escape s @ b) = markup AttrValue b"
  by (simp_all add: markup_Data_append markup_AttrValue_append escape_chars)


lemma markup_price:
  \<open>markup Data (concat (map (\<lambda>l. CHR 0x0A # l) (render_price info)) @ b) =
     (case get_truthy info ''price'' of
        None \<Rightarrow> [] | Some p \<Rightarrow> ''<div class=""><strong></strong></div>'') @ markup Data b\<close>
  by (cases "get_truthy info ''price''") (simp_all add: render_price_def DQUOTE_def)

lemma markup_expires:
  \<open>markup Data (concat (map (\<lambda>l. CHR 0x0A # l) (render_expires info)) @ b) =
     (case get_truthy info ''expires'' of
        None \<Rightarrow> [] | Some p \<Rightarrow> ''<div class=""><strong></strong></div>'') @ markup Data b\<close>
  by (cases "get_truthy info ''expires''") (simp_all add: render_expires_def DQUOTE_def)

lemma markup_url:
  \<open>markup Data (concat (map (\<lambda>l. CHR 0x0A # l) (render_url info)) @ b) =
     (case get_truthy info ''url'' of
        None \<Rightarrow> []
      | Some u \<Rightarrow> ''<div class=""><strong></strong><a href="" target="" rel=""></a></div>'')
     @ markup Data b\<close>
  by (cases "get_truthy info ''url''") (simp_all add: render_url_def Let_def DQUOTE_def)

lemma markup_contact:
  \<open>markup Data (concat (map (\<lambda>l. CHR 0x0A # l) (render_contact info)) @ b) =
     (case get_truthy info ''contact'' of
        None \<Rightarrow> []
      | Some c \<Rightarrow>
          if take 7 (escape c) = ''mailto:''
          then ''<div class=""><strong></strong><a href=""></a></div>''
          else ''<div class=""><strong></strong></div>'')
     @ markup Data b\<close>
  by (cases "get_truthy info ''contact''") (simp_all add: render_contact_def Let_def DQUOTE_def)

lemma markup_domain:
  "render_domain info = Inr heading \<Longrightarrow> markup Data (heading @ b) = ''<h2></h2>'' @ markup Data b"
  by (auto simp: render_domain_def DQUOTE_def split: option.splits)

subsection \<open>The counter of the JSON scanner\<close>

text \<open>
  Every call of the scanner consumes input before it recurses, so the counter that
  \<^term>\<open>raw_decode\<close> hands over never runs out: the model raises \<^verbatim>\<open>RecursionError\<close> for no
  document.
\<close>

lemma length_skip_ws: "length (skip_ws s) \<le> length s"
  by (simp add: skip_ws_def length_dropWhile_le)

lemma skip_ws_Cons_length: "skip_ws s = c # r \<Longrightarrow> length r < length s"
  using length_skip_ws [of s] by simp

lemma prepend_Inr: "prepend ch x = Inr (str, r) \<Longrightarrow> \<exists>str'. x = Inr (str', r)"
  by (auto simp: prepend_def split: sum.splits)

lemma scanstring_length: "scanstring s = Inr (str, r) \<Longrightarrow> length r < length s"
proof (induction s arbitrary: str rule: scanstring.induct)
  case 1
  then show ?case by simp
next
  case (2 c s)
  show ?case
    using "2.prems" "2.IH"
    by (fastforce split: if_splits list.splits option.splits dest!: prepend_Inr)
qed

lemma match_integer_length:
  assumes "match_integer s = Some (g, r)"
  shows "length r < length s"
proof -
  define t where "t = (if take 1 s = ''-'' then drop 1 s else s)"
  have t: "length t \<le> length s"
    by (simp add: t_def)
  from assms obtain d t' where "t = d # t'" and "r = t' \<or> r = dropWhile is_digit t'"
    by (auto simp: match_integer_def t_def split: if_splits list.splits)
  then have "length r \<le> length t'" and "length t = Suc (length t')"
    by (auto simp: length_dropWhile_le)
  with t show ?thesis
    by simp
qed

lemma match_frac_length: "match_frac s = (g, r) \<Longrightarrow> length r \<le> length s"
  by (auto simp: match_frac_def split: if_splits list.splits
      intro: le_trans [OF length_dropWhile_le])

lemma match_exp_length: "match_exp s = (g, r) \<Longrightarrow> length r \<le> length s"
  by (auto simp: match_exp_def Let_def split: if_splits list.splits prod.splits
      intro: le_trans [OF length_dropWhile_le])

lemma match_number_length: "match_number s = Some (g, r) \<Longrightarrow> length r < length s"
  by (auto simp: match_number_def Let_def split: option.splits prod.splits
      dest!: match_integer_length match_frac_length match_exp_length)


lemma prepend_Inl: "prepend ch x = Inl e \<Longrightarrow> x = Inl e"
  by (auto simp: prepend_def split: sum.splits)

lemma scanstring_no_RecursionError: "scanstring s \<noteq> Inl RecursionError"
proof (induction s rule: scanstring.induct)
  case 1
  then show ?case by simp
next
  case (2 c s)
  then show ?case
    by (fastforce split: if_splits list.splits option.splits dest!: prepend_Inl)
qed


lemma consumes_Inl [simp]: "consumes (Inl e) s \<longleftrightarrow> e \<noteq> RecursionError"
  by (simp add: consumes_def)

lemma consumes_Inr [simp]: "consumes (Inr (v, r)) s \<longleftrightarrow> length r < length s"
  by (simp add: consumes_def)

lemma consumes_mono: "consumes res t \<Longrightarrow> length t \<le> length s \<Longrightarrow> consumes res s"
  by (auto simp: consumes_def)

lemma scan_once_Suc_step:
  assumes IHQ: "\<And>pairs t. 2 * length t + 1 < n \<Longrightarrow> consumes (object_loop n pairs t) t"
    and IHR: "\<And>vs t. 2 * length t + 1 < n \<Longrightarrow> consumes (array_loop n vs t) t"
    and fuel: "2 * length s < Suc n"
  shows "consumes (scan_once (Suc n) s) s"
proof (cases s)
  case Nil
  then show ?thesis by simp
next
  case (Cons nextchar r)
  note s = Cons
  consider (str) "nextchar = DQUOTE"
    | (obj) "nextchar \<noteq> DQUOTE" "nextchar = CHR ''{''"
    | (arr) "nextchar \<noteq> DQUOTE" "nextchar \<noteq> CHR ''{''" "nextchar = CHR ''[''"
    | (other) "nextchar \<noteq> DQUOTE" "nextchar \<noteq> CHR ''{''" "nextchar \<noteq> CHR ''[''"
    by blast
  then show ?thesis
  proof cases
    case str
    show ?thesis
    proof (cases "scanstring r")
      case (Inl e)
      then show ?thesis
        using s str scanstring_no_RecursionError [of r] by auto
    next
      case (Inr a)
      then show ?thesis
        using s str scanstring_length [of r "fst a" "snd a"] by (cases a) auto
    qed
  next
    case obj
    show ?thesis
    proof (cases "skip_ws r")
      case Nil
      then show ?thesis using s obj by simp
    next
      case (Cons c r')
      have len: "length r' < length r"
        using Cons by (rule skip_ws_Cons_length)
      then have "2 * length r' + 1 < n"
        using fuel s by simp
      then have "consumes (object_loop n [] r') r'"
        by (rule IHQ)
      then have "consumes (object_loop n [] r') s"
        by (rule consumes_mono) (use len s in simp)
      then show ?thesis
        using s obj Cons len by simp
    qed
  next
    case arr
    have "2 * length (skip_ws r) + 1 < n"
      using length_skip_ws [of r] fuel s by simp
    then have "consumes (array_loop n [] (skip_ws r)) (skip_ws r)"
      by (rule IHR)
    then have "consumes (array_loop n [] (skip_ws r)) s"
      by (rule consumes_mono) (use length_skip_ws [of r] s in simp)
    then show ?thesis
      using s arr length_skip_ws [of r] by (auto simp: Let_def)
  next
    case other
    show ?thesis
    proof (cases "match_number s")
      case None
      then show ?thesis
        using s other by (simp add: less_Suc_eq_le)
    next
      case (Some a)
      obtain integer fraction ex r' where a: "a = ((integer, fraction, ex), r')"
        by (cases a) auto
      have "length r' < length s"
        using Some a by (auto dest: match_number_length)
      then show ?thesis
        using s other Some a by (simp add: less_Suc_eq_le)
    qed
  qed
qed


lemma object_loop_Suc_step:
  assumes IHS: "\<And>t. 2 * length t < n \<Longrightarrow> consumes (scan_once n t) t"
    and IHQ: "\<And>pairs t. 2 * length t + 1 < n \<Longrightarrow> consumes (object_loop n pairs t) t"
    and fuel: "2 * length s + 1 < Suc n"
  shows "consumes (object_loop (Suc n) pairs s) s"
proof (cases "scanstring s")
  case (Inl e)
  then show ?thesis
    using scanstring_no_RecursionError [of s] by auto
next
  case (Inr a)
  obtain key r1 where a: "a = (key, r1)"
    by (cases a) auto
  have l1: "length r1 < length s"
    using Inr a by (auto dest: scanstring_length)
  show ?thesis
  proof (cases "skip_ws r1")
    case Nil
    then show ?thesis using Inr a by simp
  next
    case (Cons c r2)
    note r2 = Cons
    have l2: "length r2 < length r1"
      using r2 by (rule skip_ws_Cons_length)
    show ?thesis
    proof (cases "c = CHR '':''")
      case False
      then show ?thesis using Inr a r2 by simp
    next
      case True
      note c = True
      have l2': "length (skip_ws r2) \<le> length r2"
        by (rule length_skip_ws)
      have "2 * length (skip_ws r2) < n"
        using l1 l2 l2' fuel by simp
      then have S: "consumes (scan_once n (skip_ws r2)) (skip_ws r2)"
        by (rule IHS)
      show ?thesis
      proof (cases "scan_once n (skip_ws r2)")
        case (Inl e)
        then show ?thesis
          using S Inr a r2 c by simp
      next
        case (Inr b)
        note sc = Inr
        obtain v r3 where b: "b = (v, r3)"
          by (cases b) auto
        have l3: "length r3 < length (skip_ws r2)"
          using S sc b by simp
        show ?thesis
        proof (cases "skip_ws r3")
          case Nil
          then show ?thesis
            using \<open>scanstring s = Inr a\<close> a r2 c sc b by simp
        next
          case (Cons d r4)
          note r4 = Cons
          have l4: "length r4 < length r3"
            using r4 by (rule skip_ws_Cons_length)
          show ?thesis
          proof (cases "d = CHR ''}''")
            case True
            then show ?thesis
              using \<open>scanstring s = Inr a\<close> a r2 c sc b r4 l1 l2 l2' l3 l4 by simp
          next
            case False
            note d1 = False
            show ?thesis
            proof (cases "d = CHR '',''")
              case False
              then show ?thesis
                using \<open>scanstring s = Inr a\<close> a r2 c sc b r4 d1 by simp
            next
              case True
              note d2 = True
              show ?thesis
              proof (cases "skip_ws r4")
                case Nil
                then show ?thesis
                  using \<open>scanstring s = Inr a\<close> a r2 c sc b r4 d1 d2 by simp
              next
                case (Cons q r5)
                note r5 = Cons
                have l5: "length r5 < length r4"
                  using r5 by (rule skip_ws_Cons_length)
                show ?thesis
                proof (cases "q = DQUOTE")
                  case False
                  then show ?thesis
                    using \<open>scanstring s = Inr a\<close> a r2 c sc b r4 d1 d2 r5 by simp
                next
                  case True
                  have "2 * length r5 + 1 < n"
                    using l1 l2 l2' l3 l4 l5 fuel by simp
                  then have "consumes (object_loop n (pairs @ [(key, v)]) r5) r5"
                    by (rule IHQ)
                  then have "consumes (object_loop n (pairs @ [(key, v)]) r5) s"
                    by (rule consumes_mono) (use l1 l2 l2' l3 l4 l5 in simp)
                  then show ?thesis
                    using \<open>scanstring s = Inr a\<close> a r2 c sc b r4 d1 d2 r5 True by simp
                qed
              qed
            qed
          qed
        qed
      qed
    qed
  qed
qed

lemma array_loop_Suc_step:
  assumes IHS: "\<And>t. 2 * length t < n \<Longrightarrow> consumes (scan_once n t) t"
    and IHR: "\<And>vs t. 2 * length t + 1 < n \<Longrightarrow> consumes (array_loop n vs t) t"
    and fuel: "2 * length s + 1 < Suc n"
  shows "consumes (array_loop (Suc n) vs s) s"
proof -
  have "2 * length s < n"
    using fuel by simp
  then have S: "consumes (scan_once n s) s"
    by (rule IHS)
  show ?thesis
  proof (cases "scan_once n s")
    case (Inl e)
    then show ?thesis using S by simp
  next
    case (Inr b)
    obtain v r1 where b: "b = (v, r1)"
      by (cases b) auto
    have l1: "length r1 < length s"
      using S Inr b by simp
    show ?thesis
    proof (cases "skip_ws r1")
      case Nil
      then show ?thesis using Inr b by simp
    next
      case (Cons d r2)
      have l2: "length r2 < length r1"
        using Cons by (rule skip_ws_Cons_length)
      have l3: "length (skip_ws r2) \<le> length r2"
        by (rule length_skip_ws)
      have "2 * length (skip_ws r2) + 1 < n"
        using l1 l2 l3 fuel by simp
      then have "consumes (array_loop n (vs @ [v]) (skip_ws r2)) (skip_ws r2)"
        by (rule IHR)
      then have "consumes (array_loop n (vs @ [v]) (skip_ws r2)) s"
        by (rule consumes_mono) (use l1 l2 l3 in simp)
      then show ?thesis
        using Inr b Cons l1 l2 by simp
    qed
  qed
qed

lemma scan_consumes:
  "(\<forall>s. 2 * length s < k \<longrightarrow> consumes (scan_once k s) s)
   \<and> (\<forall>pairs s. 2 * length s + 1 < k \<longrightarrow> consumes (object_loop k pairs s) s)
   \<and> (\<forall>vs s. 2 * length s + 1 < k \<longrightarrow> consumes (array_loop k vs s) s)"
proof (induction k)
  case 0
  show ?case by simp
next
  case (Suc n)
  have IHS: "consumes (scan_once n t) t" if "2 * length t < n" for t
    using Suc that by blast
  have IHQ: "consumes (object_loop n pairs t) t" if "2 * length t + 1 < n" for pairs t
    using Suc that by blast
  have IHR: "consumes (array_loop n vs t) t" if "2 * length t + 1 < n" for vs t
    using Suc that by blast
  show ?case
  proof (intro conjI allI impI)
    fix s :: string assume "2 * length s < Suc n"
    then show "consumes (scan_once (Suc n) s) s"
      by (rule scan_once_Suc_step [rotated 2]) (erule IHQ, erule IHR)
  next
    fix pairs and s :: string assume "2 * length s + 1 < Suc n"
    then show "consumes (object_loop (Suc n) pairs s) s"
      by (rule object_loop_Suc_step [rotated 2]) (erule IHS, erule IHQ)
  next
    fix vs and s :: string assume "2 * length s + 1 < Suc n"
    then show "consumes (array_loop (Suc n) vs s) s"
      by (rule array_loop_Suc_step [rotated 2]) (erule IHS, erule IHR)
  qed
qed

lemma raw_decode_no_RecursionError: "raw_decode s \<noteq> Inl RecursionError"
  using scan_consumes [of "2 * length s + 1"] by (simp add: raw_decode_def consumes_def)

lemma raw_decode_consumes: "raw_decode s = Inr (v, r) \<Longrightarrow> length r < length s"
  using scan_consumes [of "2 * length s + 1"] by (simp add: raw_decode_def consumes_def)

lemma json_loads_no_RecursionError: "json_loads s \<noteq> Inl RecursionError"
  using raw_decode_no_RecursionError [of "skip_ws s"]
  by (auto simp: json_loads_def decode_def split: sum.splits if_splits)

text \<open>
  Claim C7. For every cache and key: a \<^verbatim>\<open>get\<close> at or after the expiry instant of the entry
  is a miss and removes the entry. The wrapper stores a value only when the wrapped function
  returned: when the function raises on a miss, the exception is the wrapper's result, the
  cache holds nothing under the key and is otherwise as before, so the next call finds no
  entry and calls the function again (whatever function is wrapped then: its exception is
  the wrapper's, and its result goes to \<^verbatim>\<open>set\<close>); and whenever the wrapper changed the entries
  beyond what the \<^verbatim>\<open>get\<close> did, the function returned a result and that result is what \<^verbatim>\<open>set\<close>
  stored.
\<close>

theorem cache_expiry_and_failures:
  "(entries c key = Some (v, expiry) \<and> expiry \<le> now \<longrightarrow>
      fst (cache_get c key now) = None \<and> entries (snd (cache_get c key now)) key = None)
   \<and> (fst (cache_get c (key_func args) now_get) = None \<and> func args w = (Inl e, w') \<longrightarrow>
        (\<exists>c'. cached c key_func func now_get now_set args w = (Inl e, c', w')
              \<and> entries c' (key_func args) = None
              \<and> (\<forall>k. k \<noteq> key_func args \<longrightarrow> entries c' k = entries c k)
              \<and> (\<forall>t1. fst (cache_get c' (key_func args) t1) = None)
              \<and> (\<forall>func2 t1 t2 w2.
                    cached c' key_func func2 t1 t2 args w2 =
                      (case func2 args w2 of
                         (Inl e2, w3) \<Rightarrow> (Inl e2, c', w3)
                       | (Inr result, w3) \<Rightarrow>
                           (case cache_set c' (key_func args) result t2 of
                              Inl e3 \<Rightarrow> (Inl e3, c', w3)
                            | Inr c'' \<Rightarrow> (Inr result, c'', w3))))))
   \<and> (cached c key_func func now_get now_set args w = (r, c2, w2)
        \<and> entries c2 \<noteq> entries (snd (cache_get c (key_func args) now_get)) \<longrightarrow>
        (\<exists>result. r = Inr result \<and> func args w = (Inr result, w2)
                  \<and> cache_set (snd (cache_get c (key_func args) now_get)) (key_func args) result now_set
                      = Inr c2))"
proof (intro conjI impI)
  assume "entries c key = Some (v, expiry) \<and> expiry \<le> now"
  then show "fst (cache_get c key now) = None" "entries (snd (cache_get c key now)) key = None"
    by (simp_all add: cache_get_def)
next
  assume a: "fst (cache_get c (key_func args) now_get) = None \<and> func args w = (Inl e, w')"
  obtain c' where g: "cache_get c (key_func args) now_get = (None, c')"
    using a by (cases "cache_get c (key_func args) now_get") auto
  have e: "entries c' (key_func args) = None"
    using g by (rule cache_get_miss_entry)
  have o: "\<forall>k. k \<noteq> key_func args \<longrightarrow> entries c' k = entries c k"
    using cache_get_other [of _ "key_func args" c now_get] g by simp
  have r: "cached c key_func func now_get now_set args w = (Inl e, c', w')"
    using a g by (simp add: cached_def)
  have n: "cache_get c' (key_func args) t1 = (None, c')" for t1
    using e by (simp add: cache_get_def)
  then have m: "\<forall>t1. fst (cache_get c' (key_func args) t1) = None"
    by simp
  have "cached c' key_func func2 t1 t2 args w2 =
          (case func2 args w2 of
             (Inl e2, w3) \<Rightarrow> (Inl e2, c', w3)
           | (Inr result, w3) \<Rightarrow>
               (case cache_set c' (key_func args) result t2 of
                  Inl e3 \<Rightarrow> (Inl e3, c', w3)
                | Inr c'' \<Rightarrow> (Inr result, c'', w3)))"
    for func2 t1 t2 w2
    by (simp add: cached_def n)
  with r e o m
  show "\<exists>c'. cached c key_func func now_get now_set args w = (Inl e, c', w')
              \<and> entries c' (key_func args) = None
              \<and> (\<forall>k. k \<noteq> key_func args \<longrightarrow> entries c' k = entries c k)
              \<and> (\<forall>t1. fst (cache_get c' (key_func args) t1) = None)
              \<and> (\<forall>func2 t1 t2 w2.
                    cached c' key_func func2 t1 t2 args w2 =
                      (case func2 args w2 of
                         (Inl e2, w3) \<Rightarrow> (Inl e2, c', w3)
                       | (Inr result, w3) \<Rightarrow>
                           (case cache_set c' (key_func args) result t2 of
                              Inl e3 \<Rightarrow> (Inl e3, c', w3)
                            | Inr c'' \<Rightarrow> (Inr result, c'', w3))))"
    by blast
next
  assume a: "cached c key_func func now_get now_set args w = (r, c2, w2)
        \<and> entries c2 \<noteq> entries (snd (cache_get c (key_func args) now_get))"
  then show "\<exists>result. r = Inr result \<and> func args w = (Inr result, w2)
                  \<and> cache_set (snd (cache_get c (key_func args) now_get)) (key_func args) result now_set
                      = Inr c2"
    by (auto simp: cached_def Let_def split: prod.splits option.splits sum.splits)
qed

theorem cache_expiry_and_failures_witness:
  "fst (cache_get \<lparr>ttl = 300, entries = [''dns:example.com'' \<mapsto> (True, 300)]\<rparr> ''dns:example.com'' 301) = None
   \<and> entries (snd (cache_get \<lparr>ttl = 300, entries = [''dns:example.com'' \<mapsto> (True, 300)]\<rparr>
        ''dns:example.com'' 301)) ''dns:example.com'' = None
   \<and> (\<exists>c'. cached (Cache 300 :: bool cache) (\<lambda>d. ''dns:'' @ d) (\<lambda>d (w::nat). (Inl TimeoutError, Suc w)) 1 2
              ''example.com'' 0 = (Inl TimeoutError, c', 1)
            \<and> entries c' ''dns:example.com'' = None
            \<and> fst (cached c' (\<lambda>d. ''dns:'' @ d) (\<lambda>d (w::nat). (Inr True, w)) 3 4 ''example.com'' 1)
                = Inr True)
   \<and> cache_set (snd (cache_get (Cache 300 :: bool cache) ''dns:example.com'' 1)) ''dns:example.com'' True 2
       = Inr \<lparr>ttl = 300, entries = [''dns:example.com'' \<mapsto> (True, 302)]\<rparr>"
proof -
  let ?c = "\<lparr>ttl = 300, entries = [''dns:example.com'' \<mapsto> (True, 300)]\<rparr> :: bool cache"
  have h1: "entries ?c ''dns:example.com'' = Some (True, 300) \<and> (300::real) \<le> 301"
    by simp
  let ?f = "\<lambda>(d::string) (w::nat). (Inl TimeoutError :: exc + bool, Suc w)"
  let ?k = "\<lambda>d. ''dns:'' @ d"
  have h2: "fst (cache_get (Cache 300 :: bool cache) (?k ''example.com'') 1) = None
            \<and> ?f ''example.com'' 0 = (Inl TimeoutError, 1)"
    by (simp add: cache_get_def Cache_def)
  let ?g = "\<lambda>(d::string) (w::nat). (Inr True :: exc + bool, w)"
  let ?c3 = "\<lparr>ttl = 300, entries = [''dns:example.com'' \<mapsto> (True, 302)]\<rparr> :: bool cache"
  have h3: "cached (Cache 300 :: bool cache) ?k ?g 1 2 ''example.com'' 0 = (Inr True, ?c3, 0)
            \<and> entries ?c3 \<noteq> entries (snd (cache_get (Cache 300 :: bool cache) (?k ''example.com'') 1))"
    by (auto simp: cached_def cache_get_def cache_set_def Cache_def fun_eq_iff)
  note t1 = cache_expiry_and_failures [of ?c "''dns:example.com''" True 300 301 ?k "''example.com''" 1
      ?f 0 TimeoutError 1 2 "Inl TimeoutError" ?c 0, THEN conjunct1, rule_format, OF h1]
  note t2 = cache_expiry_and_failures [of "Cache 300 :: bool cache" "''x''" True 0 0 ?k "''example.com''" 1
      ?f 0 TimeoutError 1 2 "Inl TimeoutError" "Cache 300" 0, THEN conjunct2, THEN conjunct1, rule_format, OF h2]
  note t3 = cache_expiry_and_failures [of "Cache 300 :: bool cache" "''x''" True 0 0 ?k "''example.com''" 1
      ?g 0 TimeoutError 0 2 "Inr True" ?c3 0,
      THEN conjunct2, THEN conjunct2, rule_format, OF h3]
  from t2 obtain c' where r: "cached (Cache 300 :: bool cache) ?k ?f 1 2 ''example.com'' 0 = (Inl TimeoutError, c', 1)"
    and e: "entries c' (?k ''example.com'') = None"
    and N: "\<forall>(func2 :: string \<Rightarrow> nat \<Rightarrow> (exc + bool) \<times> nat) t1 t2 w2.
              cached c' ?k func2 t1 t2 ''example.com'' w2 =
                (case func2 ''example.com'' w2 of
                   (Inl e2, w3) \<Rightarrow> (Inl e2, c', w3)
                 | (Inr result, w3) \<Rightarrow>
                     (case cache_set c' (?k ''example.com'') result t2 of
                        Inl e3 \<Rightarrow> (Inl e3, c', w3)
                      | Inr c'' \<Rightarrow> (Inr result, c'', w3)))"
    by (elim exE conjE)
  note n = N [rule_format, of ?g 3 4 1]
  have "ttl c' = 300"
    using cached_ttl [OF r] by (simp add: Cache_def)
  then have "fst (cached c' ?k ?g 3 4 ''example.com'' 1) = Inr True"
    unfolding n by (simp add: cache_set_def)
  then have p2: "\<exists>c'. cached (Cache 300 :: bool cache) ?k ?f 1 2 ''example.com'' 0 = (Inl TimeoutError, c', 1)
            \<and> entries c' ''dns:example.com'' = None
            \<and> fst (cached c' ?k ?g 3 4 ''example.com'' 1) = Inr True"
    using r e by (intro exI [of _ c']) simp
  from t3 obtain result where "(Inr True :: exc + bool) = Inr result"
    and "cache_set (snd (cache_get (Cache 300 :: bool cache) (?k ''example.com'') 1))
           (?k ''example.com'') result 2 = Inr ?c3"
    by (elim exE conjE)
  then have p3: "cache_set (snd (cache_get (Cache 300 :: bool cache) ''dns:example.com'' 1))
                      ''dns:example.com'' True 2 = Inr ?c3"
    by simp
  from t1 p2 p3 show ?thesis
    by simp
qed

text \<open>
  Claim C10. A call whose \<^verbatim>\<open>options.cache_ttl\<close> differs from the default 300 leaves that value
  as the TTL of both module-level caches, and a later call whose \<^verbatim>\<open>cache_ttl\<close> is 300 (given
  or by default) leaves it there: the TTL is not set back to 300.
\<close>

theorem cache_ttl_persists:
  assumes "cache_ttl o1 \<noteq> DEFAULT_CACHE_TTL"
    and "cache_ttl (effective_options opt2) = DEFAULT_CACHE_TTL"
  shows "ttl (dns_cache (snd (get_domain_sale_status env1 st d1 (Some o1)))) = cache_ttl o1
       \<and> ttl (rdap_cache (snd (get_domain_sale_status env1 st d1 (Some o1)))) = cache_ttl o1
       \<and> ttl (dns_cache (snd (get_domain_sale_status env2
               (snd (get_domain_sale_status env1 st d1 (Some o1))) d2 opt2))) = cache_ttl o1
       \<and> ttl (rdap_cache (snd (get_domain_sale_status env2
               (snd (get_domain_sale_status env1 st d1 (Some o1))) d2 opt2))) = cache_ttl o1"
  using assms by (simp add: status_ttl update_cache_ttl_def effective_options_def)

theorem cache_ttl_persists_witness:
  "ttl (dns_cache (snd (get_domain_sale_status (example_env (Inl NXDOMAIN) (Inl RDAPError) 0) initial_state
          ''example.com'' (Some \<lparr>enable_rdap_check = False, cache_ttl = 60, timeout = 5\<rparr>)))) = 60
   \<and> ttl (rdap_cache (snd (get_domain_sale_status (example_env (Inl NXDOMAIN) (Inl RDAPError) 0)
          (snd (get_domain_sale_status (example_env (Inl NXDOMAIN) (Inl RDAPError) 0) initial_state
             ''example.com'' (Some \<lparr>enable_rdap_check = False, cache_ttl = 60, timeout = 5\<rparr>)))
          ''example.org'' (Some \<lparr>enable_rdap_check = False, cache_ttl = 300, timeout = 5\<rparr>)))) = 60"
proof -
  have h1: "cache_ttl \<lparr>enable_rdap_check = False, cache_ttl = 60, timeout = 5\<rparr> \<noteq> DEFAULT_CACHE_TTL"
    by (simp add: DEFAULT_CACHE_TTL_def)
  have h2: "cache_ttl (effective_options (Some \<lparr>enable_rdap_check = False, cache_ttl = 300, timeout = 5\<rparr>))
              = DEFAULT_CACHE_TTL"
    by (simp add: DEFAULT_CACHE_TTL_def effective_options_def)
  show ?thesis
    using cache_ttl_persists [OF h1 h2, of "example_env (Inl NXDOMAIN) (Inl RDAPError) 0" initial_state
        "''example.com''" "example_env (Inl NXDOMAIN) (Inl RDAPError) 0" "''example.org''"]
    by simp
qed

text \<open>
  Claim C3. With \<^verbatim>\<open>enable_rdap_check\<close> set: a response with \<^verbatim>\<open>for_sale\<close> true comes only from a
  call in which the validator accepted one of the looked-up records and the RDAP check
  returned true, and then \<^verbatim>\<open>source\<close> is a list that holds \<^verbatim>\<open>"rdap"\<close>. When a record was accepted
  and the RDAP check returned false, \<^verbatim>\<open>for_sale\<close> is false and \<^verbatim>\<open>errors\<close> is what the loop over
  the records left: nothing is added for the disagreement.
\<close>

theorem rdap_policy:
  assumes "enable_rdap_check (effective_options opt)"
  shows "(for_sale (fst (get_domain_sale_status env st d opt)) \<longrightarrow>
           (\<exists>txts src st1 r st2.
              lookup_txt_records env d (update_cache_ttl (effective_options opt) st) = (Inr (txts, src), st1)
              \<and> (\<exists>txt \<in> set txts. extract_and_validate_record env txt = Inr (Some r))
              \<and> check_rdap_status env d st1 = (Inr True, st2)
              \<and> source (fst (get_domain_sale_status env st d opt)) = SourceList src
              \<and> ''rdap'' \<in> set (heap (world (snd (get_domain_sale_status env st d opt))) src)))
       \<and> (\<forall>txts src st1 r errs st2.
            lookup_txt_records env d (update_cache_ttl (effective_options opt) st) = (Inr (txts, src), st1)
            \<and> process_records env txts None [] = (None, Some r, errs) \<and> truthy (Some r)
            \<and> check_rdap_status env d st1 = (Inr False, st2) \<longrightarrow>
            \<not> for_sale (fst (get_domain_sale_status env st d opt))
            \<and> errors (fst (get_domain_sale_status env st d opt)) = errs
            \<and> set errs \<subseteq> {Str SizeExceededError, Str SchemaValidationError, Str FieldValidationError})"
proof (intro conjI impI allI)
  assume fs: "for_sale (fst (get_domain_sale_status env st d opt))"
  show "\<exists>txts src st1 r st2.
              lookup_txt_records env d (update_cache_ttl (effective_options opt) st) = (Inr (txts, src), st1)
              \<and> (\<exists>txt \<in> set txts. extract_and_validate_record env txt = Inr (Some r))
              \<and> check_rdap_status env d st1 = (Inr True, st2)
              \<and> source (fst (get_domain_sale_status env st d opt)) = SourceList src
              \<and> ''rdap'' \<in> set (heap (world (snd (get_domain_sale_status env st d opt))) src)"
  proof (cases rule: status_cases [of env d opt st])
    case (lookup_raises e st1)
    then show ?thesis
      using fs by simp
  next
    case (no_record txts src st1 rd errs)
    then show ?thesis
      using fs by simp
  next
    case (dns_only txts src st1 r errs)
    then show ?thesis
      using assms by simp
  next
    case (rdap_true txts src st1 r errs st2)
    have "\<exists>txt \<in> set txts. extract_and_validate_record env txt = Inr (Some r)"
      using process_records_accepts [OF rdap_true(2)] by simp
    then show ?thesis
      using rdap_true(1,5,6) by (simp add: list_append_heap) blast
  next
    case (rdap_false txts src st1 r errs st2)
    then show ?thesis
      using fs by simp
  next
    case (rdap_raises txts src st1 r errs st2 e)
    then show ?thesis
      using fs by simp
  next
    case (rdap_overflow txts src st1 r errs st2)
    then show ?thesis
      using fs by simp
  qed
next
  fix txts src st1 r errs st2
  assume a: "lookup_txt_records env d (update_cache_ttl (effective_options opt) st) = (Inr (txts, src), st1)
            \<and> process_records env txts None [] = (None, Some r, errs) \<and> truthy (Some r)
            \<and> check_rdap_status env d st1 = (Inr False, st2)"
  then have "get_domain_sale_status env st d opt = ((new_response d)\<lparr>errors := errs\<rparr>, st2)"
    using status_rdap_false [of env d opt st txts src st1 r errs st2] assms by simp
  then show "\<not> for_sale (fst (get_domain_sale_status env st d opt))"
    and "errors (fst (get_domain_sale_status env st d opt)) = errs"
    by simp_all
  show "set errs \<subseteq> {Str SizeExceededError, Str SchemaValidationError, Str FieldValidationError}"
    using a process_records_errors [of env txts None "[]" None "Some r" errs] by simp
qed

theorem rdap_policy_witness:
  "(\<exists>src. source (fst (get_domain_sale_status
                (example_env (Inr [[example_record]]) (Inr (PDict [(''status'', PList [PStr ''for-sale''])])) 0)
                initial_state ''example.com'' (Some \<lparr>enable_rdap_check = True, cache_ttl = 300, timeout = 5\<rparr>)))
             = SourceList src
          \<and> ''rdap'' \<in> set (heap (world (snd (get_domain_sale_status
                (example_env (Inr [[example_record]]) (Inr (PDict [(''status'', PList [PStr ''for-sale''])])) 0)
                initial_state ''example.com'' (Some \<lparr>enable_rdap_check = True, cache_ttl = 300, timeout = 5\<rparr>)))) src))
   \<and> \<not> for_sale (fst (get_domain_sale_status
                (example_env (Inr [[example_record]]) (Inr (PDict [(''status'', PList [PStr ''active''])])) 0)
                initial_state ''example.com'' (Some \<lparr>enable_rdap_check = True, cache_ttl = 300, timeout = 5\<rparr>)))
   \<and> errors (fst (get_domain_sale_status
                (example_env (Inr [[example_record]]) (Inr (PDict [(''status'', PList [PStr ''active''])])) 0)
                initial_state ''example.com'' (Some \<lparr>enable_rdap_check = True, cache_ttl = 300, timeout = 5\<rparr>))) = []"
proof -
  define opt where "opt = Some \<lparr>enable_rdap_check = True, cache_ttl = 300, timeout = 5\<rparr>"
  define envT where
    "envT = example_env (Inr [[example_record]]) (Inr (PDict [(''status'', PList [PStr ''for-sale''])])) 0"
  define envF where
    "envF = example_env (Inr [[example_record]]) (Inr (PDict [(''status'', PList [PStr ''active''])])) 0"
  define st0 where "st0 = update_cache_ttl (effective_options opt) initial_state"
  define L where "L = lookup_txt_records envF ''example.com'' st0"
  define R where "R = check_rdap_status envF ''example.com'' (snd L)"
  have en: "enable_rdap_check (effective_options opt)"
    by (simp add: effective_options_def opt_def)
  have fs: "for_sale (fst (get_domain_sale_status envT initial_state ''example.com'' opt))"
    unfolding envT_def opt_def by code_simp
  have p1: "\<exists>src. source (fst (get_domain_sale_status envT initial_state ''example.com'' opt)) = SourceList src
          \<and> ''rdap'' \<in> set (heap (world (snd (get_domain_sale_status envT initial_state ''example.com'' opt))) src)"
    using rdap_policy [OF en, of envT initial_state "''example.com''"] fs by blast
  have l: "fst L = Inr ([example_record], 0)"
    unfolding L_def st0_def envF_def opt_def by code_simp
  have p: "process_records envF [example_record] None [] = (None, Some example_dict, [])"
    unfolding envF_def by code_simp
  have t: "truthy (Some example_dict)"
    by code_simp
  have r: "fst R = Inr False"
    unfolding R_def L_def st0_def envF_def opt_def by code_simp
  have h: "lookup_txt_records envF ''example.com'' (update_cache_ttl (effective_options opt) initial_state)
             = (Inr ([example_record], 0), snd L)
            \<and> process_records envF [example_record] None [] = (None, Some example_dict, [])
            \<and> truthy (Some example_dict)
            \<and> check_rdap_status envF ''example.com'' (snd L) = (Inr False, snd R)"
    using l p t r unfolding R_def [symmetric] L_def [symmetric] st0_def [symmetric]
    by (simp add: prod_eq_iff)
  have p2: "\<not> for_sale (fst (get_domain_sale_status envF initial_state ''example.com'' opt))
            \<and> errors (fst (get_domain_sale_status envF initial_state ''example.com'' opt)) = []"
    using rdap_policy [OF en, of envF initial_state "''example.com''", THEN conjunct2, rule_format, OF h]
    by simp
  from p1 p2 show ?thesis
    unfolding envT_def envF_def opt_def by simp
qed

text \<open>
  Claim C2. \<^verbatim>\<open>get_domain_sale_status\<close> returns a response for the domain on every input, and
  the exceptions of the layers below end as entries of \<^verbatim>\<open>errors\<close>:
  \<^item> every exception that leaves the body of the \<^verbatim>\<open>try\<close> statement is caught, and adds one entry
    (\<^verbatim>\<open>DNSSEC validation failed\<close>, \<^verbatim>\<open>Timeout\<close> or \<^verbatim>\<open>Unexpected error\<close>) to the response the body
    left;
  \<^item> when the resolver library raises on a cache miss (other than \<^verbatim>\<open>NoAnswer\<close> and \<^verbatim>\<open>NXDOMAIN\<close>,
    which mean no record), the response is not for sale and its only error is the
    \<^verbatim>\<open>Timeout\<close> entry for a resolver timeout and the \<^verbatim>\<open>DNSSEC validation failed\<close> entry otherwise;
  \<^item> when a record cannot be decoded, the only error is an \<^verbatim>\<open>Unexpected error\<close> entry;
  \<^item> when the cached RDAP check raises, the exception is \<^verbatim>\<open>RDAPError\<close> or \<^verbatim>\<open>TimeoutError\<close> of the
    client, and \<^verbatim>\<open>RDAP check failed\<close> is added behind the errors of the loop, or it is the
    \<^verbatim>\<open>OverflowError\<close> of \<^verbatim>\<open>Cache.set\<close> on a TTL beyond the range of a float, and \<^verbatim>\<open>Unexpected error\<close>
    is added there; the response is not for sale;
  \<^item> when the lookup returns records on a cache miss and the TTL is beyond the range of a
    float, the \<^verbatim>\<open>OverflowError\<close> of \<^verbatim>\<open>Cache.set\<close> ends as the only entry, \<^verbatim>\<open>Unexpected error\<close>.
\<close>

theorem never_throws:
  "domain (fst (get_domain_sale_status env st d opt)) = d
   \<and> (\<forall>e r' st'.
        try_body env d (effective_options opt) (new_response d)
          (update_cache_ttl (effective_options opt) st) = (Some e, r', st') \<longrightarrow>
        get_domain_sale_status env st d opt = (status_except e r', st')
        \<and> for_sale (status_except e r') = for_sale r'
        \<and> errors (status_except e r') =
            errors r' @ [if e = DNSSECValidationError then DNSSECFailed e
                         else if e = TimeoutError then TimeoutMsg e else UnexpectedError e])
   \<and> (\<forall>e. fst (cache_get (dns_cache (update_cache_ttl (effective_options opt) st)) (''dns:'' @ d)
                 (now_dns_get env)) = None
            \<and> resolve env (FOR_SALE_PREFIX @ ''.'' @ d) = Inl e \<and> e \<noteq> NoAnswer \<and> e \<noteq> NXDOMAIN \<longrightarrow>
        fst (get_domain_sale_status env st d opt) =
          (new_response d)\<lparr>errors := [if e = ResolverTimeout then TimeoutMsg TimeoutError
                                       else DNSSECFailed DNSSECValidationError]\<rparr>)
   \<and> (\<forall>answers e. fst (cache_get (dns_cache (update_cache_ttl (effective_options opt) st)) (''dns:'' @ d)
                 (now_dns_get env)) = None
            \<and> resolve env (FOR_SALE_PREFIX @ ''.'' @ d) = Inr answers \<and> collect_txt answers = Inl e \<longrightarrow>
        fst (get_domain_sale_status env st d opt) =
          (new_response d)\<lparr>errors := [UnexpectedError UnicodeDecodeError]\<rparr>)
   \<and> (\<forall>txts src st1 r errs e st2.
        lookup_txt_records env d (update_cache_ttl (effective_options opt) st) = (Inr (txts, src), st1)
        \<and> process_records env txts None [] = (None, Some r, errs) \<and> truthy (Some r)
        \<and> enable_rdap_check (effective_options opt)
        \<and> check_rdap_status env d st1 = (Inl e, st2) \<longrightarrow>
        (e = RDAPError \<or> e = TimeoutError
         \<or> (e = OverflowError \<and> float_overflow (ttl (rdap_cache st1))))
        \<and> fst (get_domain_sale_status env st d opt) =
            (new_response d)\<lparr>errors := errs @ [if e = OverflowError then UnexpectedError e
                                                else RDAPCheckFailed e]\<rparr>)
   \<and> (\<forall>answers txts.
        fst (cache_get (dns_cache (update_cache_ttl (effective_options opt) st)) (''dns:'' @ d)
                 (now_dns_get env)) = None
        \<and> resolve env (FOR_SALE_PREFIX @ ''.'' @ d) = Inr answers \<and> collect_txt answers = Inr txts
        \<and> float_overflow (ttl (dns_cache (update_cache_ttl (effective_options opt) st))) \<longrightarrow>
        fst (get_domain_sale_status env st d opt) =
          (new_response d)\<lparr>errors := [UnexpectedError OverflowError]\<rparr>)"
proof (intro conjI allI impI)
  show "domain (fst (get_domain_sale_status env st d opt)) = d"
    by (rule status_domain)
next
  fix e r' st'
  assume "try_body env d (effective_options opt) (new_response d)
          (update_cache_ttl (effective_options opt) st) = (Some e, r', st')"
  then show "get_domain_sale_status env st d opt = (status_except e r', st')"
    by (simp add: get_domain_sale_status_def)
  show "for_sale (status_except e r') = for_sale r'"
    by simp
  show "errors (status_except e r') =
            errors r' @ [if e = DNSSECValidationError then DNSSECFailed e
                         else if e = TimeoutError then TimeoutMsg e else UnexpectedError e]"
    by (rule status_except_errors)
next
  fix e
  let ?st0 = "update_cache_ttl (effective_options opt) st"
  assume a: "fst (cache_get (dns_cache ?st0) (''dns:'' @ d) (now_dns_get env)) = None
            \<and> resolve env (FOR_SALE_PREFIX @ ''.'' @ d) = Inl e \<and> e \<noteq> NoAnswer \<and> e \<noteq> NXDOMAIN"
  let ?e' = "if e = ResolverTimeout then TimeoutError else DNSSECValidationError"
  have "fst (lookup_txt_records env d ?st0) = Inl ?e'"
    using a lookup_txt_records_miss(1) [of ?st0 d env]
      lookup_for_sale_record_resolver_raises [of env d e "world ?st0"] by simp
  then have "lookup_txt_records env d ?st0 = (Inl ?e', snd (lookup_txt_records env d ?st0))"
    by (simp add: prod_eq_iff)
  from status_lookup_raises [OF this]
  show "fst (get_domain_sale_status env st d opt) =
          (new_response d)\<lparr>errors := [if e = ResolverTimeout then TimeoutMsg TimeoutError
                                       else DNSSECFailed DNSSECValidationError]\<rparr>"
    by (simp add: status_except_def new_response_def)
next
  fix answers e
  let ?st0 = "update_cache_ttl (effective_options opt) st"
  assume a: "fst (cache_get (dns_cache ?st0) (''dns:'' @ d) (now_dns_get env)) = None
            \<and> resolve env (FOR_SALE_PREFIX @ ''.'' @ d) = Inr answers \<and> collect_txt answers = Inl e"
  have "fst (lookup_txt_records env d ?st0) = Inl UnicodeDecodeError"
    using a lookup_txt_records_miss(1) [of ?st0 d env]
      lookup_for_sale_record_decode_raises [of env d answers e "world ?st0"] by simp
  then have "lookup_txt_records env d ?st0 = (Inl UnicodeDecodeError, snd (lookup_txt_records env d ?st0))"
    by (simp add: prod_eq_iff)
  from status_lookup_raises [OF this]
  show "fst (get_domain_sale_status env st d opt) =
          (new_response d)\<lparr>errors := [UnexpectedError UnicodeDecodeError]\<rparr>"
    by (simp add: status_except_def new_response_def)
next
  fix txts src st1 r errs e st2
  assume a: "lookup_txt_records env d (update_cache_ttl (effective_options opt) st) = (Inr (txts, src), st1)
        \<and> process_records env txts None [] = (None, Some r, errs) \<and> truthy (Some r)
        \<and> enable_rdap_check (effective_options opt)
        \<and> check_rdap_status env d st1 = (Inl e, st2)"
  then show e: "e = RDAPError \<or> e = TimeoutError
         \<or> (e = OverflowError \<and> float_overflow (ttl (rdap_cache st1)))"
    using check_rdap_status_raises [of env d st1 e st2] by simp
  show "fst (get_domain_sale_status env st d opt) =
            (new_response d)\<lparr>errors := errs @ [if e = OverflowError then UnexpectedError e
                                                else RDAPCheckFailed e]\<rparr>"
  proof (cases "e = OverflowError")
    case True
    then show ?thesis
      using a status_rdap_overflow [of env d opt st txts src st1 r errs e st2]
      by (simp add: status_except_def new_response_def)
  next
    case False
    then show ?thesis
      using a e status_rdap_raises [of env d opt st txts src st1 r errs e st2] by simp
  qed
next
  fix answers txts
  let ?st0 = "update_cache_ttl (effective_options opt) st"
  assume a: "fst (cache_get (dns_cache ?st0) (''dns:'' @ d) (now_dns_get env)) = None
        \<and> resolve env (FOR_SALE_PREFIX @ ''.'' @ d) = Inr answers \<and> collect_txt answers = Inr txts
        \<and> float_overflow (ttl (dns_cache ?st0))"
  have "fst (lookup_txt_records env d ?st0) = Inl OverflowError"
    using a lookup_txt_records_miss(1) [of ?st0 d env]
      lookup_for_sale_record_answer [of env d answers txts "world ?st0"] by simp
  then have "lookup_txt_records env d ?st0 = (Inl OverflowError, snd (lookup_txt_records env d ?st0))"
    by (simp add: prod_eq_iff)
  from status_lookup_raises [OF this]
  show "fst (get_domain_sale_status env st d opt) =
          (new_response d)\<lparr>errors := [UnexpectedError OverflowError]\<rparr>"
    by (simp add: status_except_def new_response_def)
qed

theorem never_throws_witness:
  "errors (fst (get_domain_sale_status (example_env (Inl ResolverTimeout) (Inl RDAPError) 0) initial_state
      ''example.com'' None)) = [TimeoutMsg TimeoutError]
   \<and> \<not> for_sale (fst (get_domain_sale_status (example_env (Inl ResolverTimeout) (Inl RDAPError) 0)
      initial_state ''example.com'' None))
   \<and> errors (fst (get_domain_sale_status (example_env (Inr [[[CHR 0xFF]]]) (Inl RDAPError) 0) initial_state
      ''example.com'' None)) = [UnexpectedError UnicodeDecodeError]
   \<and> errors (fst (get_domain_sale_status
        (example_env (Inr [[example_record]]) (Inl (OtherException ''ConnectionError'')) 0) initial_state
        ''example.com'' (Some \<lparr>enable_rdap_check = True, cache_ttl = 300, timeout = 5\<rparr>)))
      = [RDAPCheckFailed RDAPError]
   \<and> errors (fst (get_domain_sale_status (example_env (Inr [[example_record]]) (Inl RDAPError) 0)
        initial_state ''example.com''
        (Some \<lparr>enable_rdap_check = False, cache_ttl = 10 ^ 309, timeout = 5\<rparr>)))
      = [UnexpectedError OverflowError]"
proof -
  define envA where "envA = example_env (Inl ResolverTimeout) (Inl RDAPError) 0"
  define envB where "envB = example_env (Inr [[[CHR 0xFF]]]) (Inl RDAPError) 0"
  define envC where "envC = example_env (Inr [[example_record]]) (Inl (OtherException ''ConnectionError'')) 0"
  define optC where "optC = Some \<lparr>enable_rdap_check = True, cache_ttl = 300, timeout = 5\<rparr>"
  define opt0 where "opt0 = (None :: DomainSaleOptions option)"
  define envD where "envD = example_env (Inr [[example_record]]) (Inl RDAPError) 0"
  define optD where "optD = Some \<lparr>enable_rdap_check = False, cache_ttl = 10 ^ 309, timeout = 5\<rparr>"
  define L where "L = lookup_txt_records envC ''example.com'' (update_cache_ttl (effective_options optC) initial_state)"
  define R where "R = check_rdap_status envC ''example.com'' (snd L)"
  have hA: "fst (cache_get (dns_cache (update_cache_ttl (effective_options opt0) initial_state))
                 (''dns:'' @ ''example.com'') (now_dns_get envA)) = None
            \<and> resolve envA (FOR_SALE_PREFIX @ ''.'' @ ''example.com'') = Inl ResolverTimeout
            \<and> ResolverTimeout \<noteq> NoAnswer \<and> ResolverTimeout \<noteq> NXDOMAIN"
    unfolding envA_def opt0_def by code_simp
  have hB: "fst (cache_get (dns_cache (update_cache_ttl (effective_options opt0) initial_state))
                 (''dns:'' @ ''example.com'') (now_dns_get envB)) = None
            \<and> resolve envB (FOR_SALE_PREFIX @ ''.'' @ ''example.com'') = Inr [[[CHR 0xFF]]]
            \<and> collect_txt [[[CHR 0xFF]]] = Inl UnicodeDecodeError"
    unfolding envB_def opt0_def by code_simp
  have l: "fst L = Inr ([example_record], 0)"
    unfolding L_def envC_def optC_def by code_simp
  have p: "process_records envC [example_record] None [] = (None, Some example_dict, [])"
    unfolding envC_def by code_simp
  have r: "fst R = Inl RDAPError"
    unfolding R_def L_def envC_def optC_def by code_simp
  have hC: "lookup_txt_records envC ''example.com'' (update_cache_ttl (effective_options optC) initial_state)
              = (Inr ([example_record], 0), snd L)
            \<and> process_records envC [example_record] None [] = (None, Some example_dict, [])
            \<and> truthy (Some example_dict)
            \<and> enable_rdap_check (effective_options optC)
            \<and> check_rdap_status envC ''example.com'' (snd L) = (Inl RDAPError, snd R)"
    using l p r unfolding R_def [symmetric] L_def [symmetric]
    by (simp add: prod_eq_iff truthy_def example_dict_def effective_options_def optC_def)
  have hD: "fst (cache_get (dns_cache (update_cache_ttl (effective_options optD) initial_state))
                 (''dns:'' @ ''example.com'') (now_dns_get envD)) = None
            \<and> resolve envD (FOR_SALE_PREFIX @ ''.'' @ ''example.com'') = Inr [[example_record]]
            \<and> collect_txt [[example_record]] = Inr [example_record]
            \<and> float_overflow (ttl (dns_cache (update_cache_ttl (effective_options optD) initial_state)))"
    unfolding envD_def optD_def by code_simp
  note T = never_throws [of envA initial_state "''example.com''" opt0]
  note A = T [THEN conjunct2, THEN conjunct2, THEN conjunct1, rule_format, OF hA]
  note U = never_throws [of envB initial_state "''example.com''" opt0]
  note B = U [THEN conjunct2, THEN conjunct2, THEN conjunct2, THEN conjunct1, rule_format, OF hB]
  note V = never_throws [of envC initial_state "''example.com''" optC]
  note C = V [THEN conjunct2, THEN conjunct2, THEN conjunct2, THEN conjunct2, THEN conjunct1,
      rule_format, OF hC]
  note W = never_throws [of envD initial_state "''example.com''" optD]
  note D = W [THEN conjunct2, THEN conjunct2, THEN conjunct2, THEN conjunct2, THEN conjunct2,
      rule_format, OF hD]
  from A B C D show ?thesis
    unfolding envA_def envB_def envC_def envD_def optC_def optD_def opt0_def by simp
qed

text \<open>
  Claim C1, as amended. For every TXT record that passes the gates before the field checks
  (at most 255 bytes, the version tag, a JSON object with the required keys and no unknown
  key) and whose \<^verbatim>\<open>price\<close> is a string: when \<^verbatim>\<open>url\<close> is a string whose scheme as \<^verbatim>\<open>urlparse\<close> returns
  it (lower-cased) is not \<^verbatim>\<open>https\<close>, or \<^verbatim>\<open>contact\<close> is a string whose scheme as \<^verbatim>\<open>urlparse\<close>
  returns it is not \<^verbatim>\<open>mailto\<close> (\<^verbatim>\<open>urlparse\<close> raising included), \<^verbatim>\<open>extract_and_validate_record\<close>
  raises \<^verbatim>\<open>FieldValidationError\<close>.
\<close>

theorem scheme_closure:
  assumes "length txt \<le> MAX_TXT_SIZE"
    and "take (length VERSION_TAG) txt = VERSION_TAG"
    and "json_loads (drop (length VERSION_TAG) txt) = Inr (PDict d)"
    and "validate_schema (PDict d) = Inr ()"
    and "dict_get d ''price'' = Some (PStr p)"
    and "(dict_get d ''url'' = Some (PStr u)
            \<and> (\<forall>r. urlparse env u = Inr r \<longrightarrow> scheme r \<noteq> ''https''))
         \<or> (dict_get d ''contact'' = Some (PStr c)
            \<and> (\<forall>r. urlparse env c = Inr r \<longrightarrow> scheme r \<noteq> ''mailto''))"
  shows "extract_and_validate_record env txt = Inl FieldValidationError"
  using assms(1-4) validate_fields_scheme [OF assms(4-6)]
  by (simp add: extract_and_validate_record_def extract_except_def)

theorem scheme_closure_witness:
  \<open>extract_and_validate_record (example_env (Inl NoAnswer) (Inl RDAPError) 0)
     ''v=FORSALE1;{"v":"1","price":"USD:1000","url":"http://x","contact":"mailto:o@x"}''
   = Inl FieldValidationError
   \<and> extract_and_validate_record (example_env (Inl NoAnswer) (Inl RDAPError) 0)
     ''v=FORSALE1;{"v":"1","price":"USD:1000","url":"https://x","contact":"tel:+1-555-555-5555"}''
   = Inl FieldValidationError\<close>
proof -
  define env where "env = example_env (Inl NoAnswer) (Inl RDAPError) 0"
  define t1 where \<open>t1 = ''v=FORSALE1;{"v":"1","price":"USD:1000","url":"http://x","contact":"mailto:o@x"}''\<close>
  define d1 where "d1 = [(''v'', PStr ''1''), (''price'', PStr ''USD:1000''), (''url'', PStr ''http://x''),
      (''contact'', PStr ''mailto:o@x'')]"
  define t2 where
    \<open>t2 = ''v=FORSALE1;{"v":"1","price":"USD:1000","url":"https://x","contact":"tel:+1-555-555-5555"}''\<close>
  define d2 where "d2 = [(''v'', PStr ''1''), (''price'', PStr ''USD:1000''), (''url'', PStr ''https://x''),
      (''contact'', PStr ''tel:+1-555-555-5555'')]"
  have a1: "length t1 \<le> MAX_TXT_SIZE" "take (length VERSION_TAG) t1 = VERSION_TAG"
    "json_loads (drop (length VERSION_TAG) t1) = Inr (PDict d1)" "validate_schema (PDict d1) = Inr ()"
    "dict_get d1 ''price'' = Some (PStr ''USD:1000'')"
    unfolding t1_def d1_def by code_simp+
  have "urlparse env ''http://x'' = Inr \<lparr>scheme = ''http'', netloc = ''x'', path = '''', params = '''',
      query = '''', fragment = ''''\<rparr>"
    unfolding env_def by code_simp
  moreover have "dict_get d1 ''url'' = Some (PStr ''http://x'')"
    unfolding d1_def by code_simp
  ultimately have b1: "(dict_get d1 ''url'' = Some (PStr ''http://x'')
            \<and> (\<forall>r. urlparse env ''http://x'' = Inr r \<longrightarrow> scheme r \<noteq> ''https''))
         \<or> (dict_get d1 ''contact'' = Some (PStr ''mailto:o@x'')
            \<and> (\<forall>r. urlparse env ''mailto:o@x'' = Inr r \<longrightarrow> scheme r \<noteq> ''mailto''))"
    by auto
  have a2: "length t2 \<le> MAX_TXT_SIZE" "take (length VERSION_TAG) t2 = VERSION_TAG"
    "json_loads (drop (length VERSION_TAG) t2) = Inr (PDict d2)" "validate_schema (PDict d2) = Inr ()"
    "dict_get d2 ''price'' = Some (PStr ''USD:1000'')"
    unfolding t2_def d2_def by code_simp+
  have "urlparse env ''tel:+1-555-555-5555'' = Inr \<lparr>scheme = ''tel'', netloc = '''',
      path = ''+1-555-555-5555'', params = '''', query = '''', fragment = ''''\<rparr>"
    unfolding env_def by code_simp
  moreover have "dict_get d2 ''contact'' = Some (PStr ''tel:+1-555-555-5555'')"
    unfolding d2_def by code_simp
  ultimately have b2: "(dict_get d2 ''url'' = Some (PStr ''https://x'')
            \<and> (\<forall>r. urlparse env ''https://x'' = Inr r \<longrightarrow> scheme r \<noteq> ''https''))
         \<or> (dict_get d2 ''contact'' = Some (PStr ''tel:+1-555-555-5555'')
            \<and> (\<forall>r. urlparse env ''tel:+1-555-555-5555'' = Inr r \<longrightarrow> scheme r \<noteq> ''mailto''))"
    by auto
  from scheme_closure [OF a1 b1] scheme_closure [OF a2 b2] show ?thesis
    unfolding env_def t1_def t2_def by simp
qed

text \<open>
  The claim as it was stated fails: \<^verbatim>\<open>urlparse\<close> lower-cases the scheme before the validator
  compares it, so a record whose \<^verbatim>\<open>url\<close> is written with the scheme \<^verbatim>\<open>HTTPS\<close> and whose \<^verbatim>\<open>contact\<close>
  is written with the scheme \<^verbatim>\<open>MAILTO\<close> is accepted.
\<close>

theorem scheme_closure_counterexample:
  \<open>before (CHR '':'') ''HTTPS://sale.example'' = ''HTTPS'' \<and> ''HTTPS'' \<noteq> ''https''
   \<and> before (CHR '':'') ''MAILTO:o@example.com'' = ''MAILTO'' \<and> ''MAILTO'' \<noteq> ''mailto''
   \<and> extract_and_validate_record (example_env (Inl NoAnswer) (Inl RDAPError) 0)
     ''v=FORSALE1;{"v":"1","price":"USD:1000","url":"HTTPS://sale.example","contact":"MAILTO:o@example.com"}''
   = Inr (Some [(''v'', PStr ''1''), (''price'', PStr ''USD:1000''), (''url'', PStr ''HTTPS://sale.example''),
               (''contact'', PStr ''MAILTO:o@example.com'')])\<close>
  by code_simp

text \<open>
  Claim C5, as amended. When the lookup for a domain is made (the DNS cache has no live entry)
  and yields a single record whose joined content is well-formed UTF-8 of more than 255 bytes
  (260, say), the resolver drops the record, the validator never sees it, and the response
  has \<^verbatim>\<open>for_sale\<close> false and no \<^verbatim>\<open>SizeExceededError\<close> entry in \<^verbatim>\<open>errors\<close>: the list is empty, unless
  the TTL of the DNS cache is beyond the range of a float, where \<^verbatim>\<open>Cache.set\<close> raises and the
  list is the one entry \<^verbatim>\<open>Unexpected error\<close>. \<^verbatim>\<open>SizeExceededError\<close> is what
  \<^verbatim>\<open>extract_and_validate_record\<close> raises when it is handed such a content.
\<close>

theorem oversized_record_dropped:
  assumes "fst (cache_get (dns_cache (update_cache_ttl (effective_options opt) st)) (''dns:'' @ d)
                 (now_dns_get env)) = None"
    and "resolve env (FOR_SALE_PREFIX @ ''.'' @ d) = Inr [strings]"
    and "valid_utf8 (concat strings)"
    and "length (concat strings) > MAX_TXT_SIZE"
  shows "\<not> for_sale (fst (get_domain_sale_status env st d opt))
       \<and> errors (fst (get_domain_sale_status env st d opt)) =
           (if float_overflow (ttl (dns_cache (update_cache_ttl (effective_options opt) st)))
            then [UnexpectedError OverflowError] else [])
       \<and> Str SizeExceededError \<notin> set (errors (fst (get_domain_sale_status env st d opt)))
       \<and> extract_and_validate_record env (concat strings) = Inl SizeExceededError"
proof -
  let ?st0 = "update_cache_ttl (effective_options opt) st"
  have c: "collect_txt [strings] = Inr []"
    using assms(3,4) by (simp add: decode_utf8_def)
  have l: "fst (lookup_txt_records env d ?st0) =
             (if float_overflow (ttl (dns_cache ?st0)) then Inl OverflowError
              else Inr ([], next_ref (world ?st0)))"
    using lookup_txt_records_miss(1) [OF assms(1)]
      lookup_for_sale_record_answer [OF assms(2) c, of "world ?st0"] by simp
  have x: "extract_and_validate_record env (concat strings) = Inl SizeExceededError"
    using assms(4) by (simp add: extract_and_validate_record_def)
  show ?thesis
  proof (cases "float_overflow (ttl (dns_cache ?st0))")
    case True
    then have "lookup_txt_records env d ?st0
                 = (Inl OverflowError, snd (lookup_txt_records env d ?st0))"
      using l by (simp add: prod_eq_iff)
    from status_lookup_raises [OF this] show ?thesis
      using True x by (simp add: status_except_def new_response_def)
  next
    case False
    then have L: "lookup_txt_records env d ?st0
                  = (Inr ([], next_ref (world ?st0)), snd (lookup_txt_records env d ?st0))"
      using l by (simp add: prod_eq_iff)
    have P: "process_records env [] None [] = (None, None, [])"
      by simp
    have "get_domain_sale_status env st d opt
            = ((new_response d)\<lparr>errors := []\<rparr>, snd (lookup_txt_records env d ?st0))"
      using status_no_record [OF L P] by (simp add: truthy_def)
    then show ?thesis
      using False x by simp
  qed
qed

theorem oversized_record_dropped_witness:
  "\<not> for_sale (fst (get_domain_sale_status
        (example_env (Inr [[replicate 200 (CHR ''a''), replicate 60 (CHR ''b'')]]) (Inl RDAPError) 0)
        initial_state ''example.com'' None))
   \<and> errors (fst (get_domain_sale_status
        (example_env (Inr [[replicate 200 (CHR ''a''), replicate 60 (CHR ''b'')]]) (Inl RDAPError) 0)
        initial_state ''example.com'' None)) = []
   \<and> extract_and_validate_record
        (example_env (Inr [[replicate 200 (CHR ''a''), replicate 60 (CHR ''b'')]]) (Inl RDAPError) 0)
        (concat [replicate 200 (CHR ''a''), replicate 60 (CHR ''b'')]) = Inl SizeExceededError
   \<and> errors (fst (get_domain_sale_status
        (example_env (Inr [[replicate 200 (CHR ''a''), replicate 60 (CHR ''b'')]]) (Inl RDAPError) 0)
        initial_state ''example.com''
        (Some \<lparr>enable_rdap_check = True, cache_ttl = 10 ^ 309, timeout = 5\<rparr>)))
      = [UnexpectedError OverflowError]"
proof -
  define env where
    "env = example_env (Inr [[replicate 200 (CHR ''a''), replicate 60 (CHR ''b'')]]) (Inl RDAPError) 0"
  define strings where "strings = [replicate 200 (CHR ''a''), replicate 60 (CHR ''b'')]"
  have h1: "fst (cache_get (dns_cache (update_cache_ttl (effective_options None) initial_state))
                 (''dns:'' @ ''example.com'') (now_dns_get env)) = None"
    unfolding env_def by code_simp
  have h2: "resolve env (FOR_SALE_PREFIX @ ''.'' @ ''example.com'') = Inr [strings]"
    unfolding env_def strings_def by code_simp
  have h3: "valid_utf8 (concat strings)"
    unfolding strings_def by code_simp
  have h4: "length (concat strings) > MAX_TXT_SIZE"
    unfolding strings_def by code_simp
  have h5: "\<not> float_overflow (ttl (dns_cache (update_cache_ttl (effective_options None) initial_state)))"
    by code_simp
  define big where "big = Some \<lparr>enable_rdap_check = True, cache_ttl = 10 ^ 309, timeout = 5\<rparr>"
  have g1: "fst (cache_get (dns_cache (update_cache_ttl (effective_options big) initial_state))
                 (''dns:'' @ ''example.com'') (now_dns_get env)) = None"
    unfolding env_def big_def by code_simp
  have g5: "float_overflow (ttl (dns_cache (update_cache_ttl (effective_options big) initial_state)))"
    unfolding big_def by code_simp
  have a: "\<not> for_sale (fst (get_domain_sale_status env initial_state ''example.com'' None))
           \<and> errors (fst (get_domain_sale_status env initial_state ''example.com'' None)) = []
           \<and> extract_and_validate_record env (concat strings) = Inl SizeExceededError"
    using oversized_record_dropped [OF h1 h2 h3 h4] h5 by simp
  have b: "errors (fst (get_domain_sale_status env initial_state ''example.com'' big))
             = [UnexpectedError OverflowError]"
    using oversized_record_dropped [OF g1 h2 h3 h4] g5 by simp
  from a b show ?thesis
    unfolding env_def strings_def big_def by simp
qed

text \<open>
  The claim as it was stated fails: a single record of 260 bytes leaves \<^verbatim>\<open>errors\<close> empty, with no
  \<^verbatim>\<open>SizeExceededError\<close> entry in it.
\<close>

theorem oversized_record_counterexample:
  "length (replicate 260 (CHR ''a'')) = 260
   \<and> \<not> for_sale (fst (get_domain_sale_status
        (example_env (Inr [[replicate 260 (CHR ''a'')]]) (Inl RDAPError) 0) initial_state ''example.com'' None))
   \<and> Str SizeExceededError \<notin> set (errors (fst (get_domain_sale_status
        (example_env (Inr [[replicate 260 (CHR ''a'')]]) (Inl RDAPError) 0) initial_state ''example.com'' None)))"
  by code_simp

text \<open>
  Claim C4, as amended. For every candidate string within the size limit that starts with
  \<^verbatim>\<open>v=FORSALE1;\<close>, \<^verbatim>\<open>extract_and_validate_record\<close> raises \<^verbatim>\<open>SchemaValidationError\<close> when the decoder
  reads a JSON value and anything but whitespace follows it (trailing garbage), when the text
  decodes to a value that is not a JSON object, and when the decoder raises. (A repeated key
  is not among these: the decoder keeps the last value given for it.)
\<close>

theorem strict_json:
  assumes "length txt \<le> MAX_TXT_SIZE"
    and "take (length VERSION_TAG) txt = VERSION_TAG"
    and "(\<exists>v r. raw_decode (skip_ws (drop (length VERSION_TAG) txt)) = Inr (v, r) \<and> skip_ws r \<noteq> [])
         \<or> (\<exists>v. json_loads (drop (length VERSION_TAG) txt) = Inr v \<and> (\<forall>d. v \<noteq> PDict d))
         \<or> (\<exists>e. json_loads (drop (length VERSION_TAG) txt) = Inl e)"
  shows "extract_and_validate_record env txt = Inl SchemaValidationError"
proof -
  let ?content = "drop (length VERSION_TAG) txt"
  have size: "\<not> length txt > MAX_TXT_SIZE"
    using assms(1) by simp
  consider (garbage) v r where "raw_decode (skip_ws ?content) = Inr (v, r)" "skip_ws r \<noteq> []"
    | (root) v where "json_loads ?content = Inr v" "\<forall>d. v \<noteq> PDict d"
    | (raises) e where "json_loads ?content = Inl e"
    using assms(3) by blast
  then show ?thesis
  proof cases
    case garbage
    then have "json_loads ?content = Inl JSONDecodeError"
      by (simp add: json_loads_def decode_def)
    then show ?thesis
      using size assms(2) by (simp add: extract_and_validate_record_def extract_except_def)
  next
    case root
    then have "validate_schema v = Inl SchemaValidationError"
      by (cases v) (simp_all add: validate_schema_def)
    then show ?thesis
      using size assms(2) root(1) by (simp add: extract_and_validate_record_def extract_except_def)
  next
    case raises
    have "extract_except e = SchemaValidationError"
    proof (cases "e = FieldValidationError")
      case True
      have "e = JSONDecodeError \<or> e = RecursionError"
        using json_loads_raises [OF raises] by (simp add: json_error_def)
      then show ?thesis
        using True by simp
    next
      case False
      then show ?thesis
        by (rule extract_except_not_field)
    qed
    then show ?thesis
      using size assms(2) raises by (simp add: extract_and_validate_record_def)
  qed
qed

theorem strict_json_witness:
  \<open>extract_and_validate_record (example_env (Inl NoAnswer) (Inl RDAPError) 0)
     ''v=FORSALE1;{"v":"1","price":"USD:1000","url":"https://x","contact":"mailto:o@x"} trailing''
   = Inl SchemaValidationError
   \<and> extract_and_validate_record (example_env (Inl NoAnswer) (Inl RDAPError) 0)
     ''v=FORSALE1;["v","1"]'' = Inl SchemaValidationError
   \<and> extract_and_validate_record (example_env (Inl NoAnswer) (Inl RDAPError) 0)
     ''v=FORSALE1;{"v":"1",}'' = Inl SchemaValidationError\<close>
proof -
  define env where "env = example_env (Inl NoAnswer) (Inl RDAPError) 0"
  define t1 where
    \<open>t1 = ''v=FORSALE1;{"v":"1","price":"USD:1000","url":"https://x","contact":"mailto:o@x"} trailing''\<close>
  define t2 where \<open>t2 = ''v=FORSALE1;["v","1"]''\<close>
  define t3 where \<open>t3 = ''v=FORSALE1;{"v":"1",}''\<close>
  have a1: "length t1 \<le> MAX_TXT_SIZE" "take (length VERSION_TAG) t1 = VERSION_TAG"
    unfolding t1_def by code_simp+
  have "raw_decode (skip_ws (drop (length VERSION_TAG) t1))
          = Inr (PDict [(''v'', PStr ''1''), (''price'', PStr ''USD:1000''), (''url'', PStr ''https://x''),
                        (''contact'', PStr ''mailto:o@x'')], '' trailing'')"
    unfolding t1_def by code_simp
  moreover have "skip_ws '' trailing'' \<noteq> []"
    by code_simp
  ultimately have b1: "(\<exists>v r. raw_decode (skip_ws (drop (length VERSION_TAG) t1)) = Inr (v, r) \<and> skip_ws r \<noteq> [])
         \<or> (\<exists>v. json_loads (drop (length VERSION_TAG) t1) = Inr v \<and> (\<forall>d. v \<noteq> PDict d))
         \<or> (\<exists>e. json_loads (drop (length VERSION_TAG) t1) = Inl e)"
    by blast
  have a2: "length t2 \<le> MAX_TXT_SIZE" "take (length VERSION_TAG) t2 = VERSION_TAG"
    unfolding t2_def by code_simp+
  have "json_loads (drop (length VERSION_TAG) t2) = Inr (PList [PStr ''v'', PStr ''1''])"
    unfolding t2_def by code_simp
  then have b2: "(\<exists>v r. raw_decode (skip_ws (drop (length VERSION_TAG) t2)) = Inr (v, r) \<and> skip_ws r \<noteq> [])
         \<or> (\<exists>v. json_loads (drop (length VERSION_TAG) t2) = Inr v \<and> (\<forall>d. v \<noteq> PDict d))
         \<or> (\<exists>e. json_loads (drop (length VERSION_TAG) t2) = Inl e)"
    by simp
  have a3: "length t3 \<le> MAX_TXT_SIZE" "take (length VERSION_TAG) t3 = VERSION_TAG"
    unfolding t3_def by code_simp+
  have "json_loads (drop (length VERSION_TAG) t3) = Inl JSONDecodeError"
    unfolding t3_def by code_simp
  then have b3: "(\<exists>v r. raw_decode (skip_ws (drop (length VERSION_TAG) t3)) = Inr (v, r) \<and> skip_ws r \<noteq> [])
         \<or> (\<exists>v. json_loads (drop (length VERSION_TAG) t3) = Inr v \<and> (\<forall>d. v \<noteq> PDict d))
         \<or> (\<exists>e. json_loads (drop (length VERSION_TAG) t3) = Inl e)"
    by simp
  from strict_json [OF a1 b1, of env] strict_json [OF a2 b2, of env] strict_json [OF a3 b3, of env]
  show ?thesis
    unfolding env_def t1_def t2_def t3_def by simp
qed

text \<open>
  The claim as it was stated fails: a JSON object that repeats a key is decoded without an
  error. Here \<^verbatim>\<open>"v"\<close> occurs twice; the decoder keeps the second value and the record is accepted.
\<close>

theorem strict_json_counterexample:
  \<open>extract_and_validate_record (example_env (Inl NoAnswer) (Inl RDAPError) 0)
     ''v=FORSALE1;{"v":"2","v":"1","price":"USD:1000","url":"https://sale.example","contact":"mailto:o@example.com"}''
   = Inr (Some [(''v'', PStr ''1''), (''price'', PStr ''USD:1000''), (''url'', PStr ''https://sale.example''),
               (''contact'', PStr ''mailto:o@example.com'')])\<close>
  by code_simp


text \<open>
  Claim C6. Every field the HTML renderer interpolates (domain, price, contact, url, expires,
  and the message of \<^verbatim>\<open>render_error\<close>) goes through \<^verbatim>\<open>_escape\<close>, whose result holds none of
  \<^verbatim>\<open><\<close>, \<^verbatim>\<open>>\<close>, the double quote and the single quote. So the markup of the output (all of it but
  the text nodes and the contents of the double-quoted attribute values) is fixed by which
  fields are present: no input string reaches an element name, an attribute name or a script
  or event-handler position, and the markup holds no such element or attribute at all.
\<close>

theorem html_escaped_output:
  \<open>CHR ''<'' \<notin> set (escape s) \<and> CHR ''>'' \<notin> set (escape s) \<and> DQUOTE \<notin> set (escape s)
   \<and> CHR 0x27 \<notin> set (escape s)
   \<and> (render_sale_info sale_info = Inr out \<longrightarrow> markup Data out = sale_info_markup sale_info)
   \<and> markup Data (render_error s) = ''<div class=""></div>''\<close>
proof (intro conjI impI)
  show "CHR ''<'' \<notin> set (escape s)" "CHR ''>'' \<notin> set (escape s)" "DQUOTE \<notin> set (escape s)"
    "CHR 0x27 \<notin> set (escape s)"
    by (rule escape_chars)+
next
  assume r: "render_sale_info sale_info = Inr out"
  then obtain heading where h: "render_domain sale_info = Inr heading"
    and out: \<open>out = join_lines ([heading, ''<div class="domain-sale-info">'']
                 @ render_price sale_info @ render_contact sale_info @ render_url sale_info
                 @ render_expires sale_info @ [''</div>''])\<close>
    by (auto simp: render_sale_info_def split: sum.splits)
  have eq: \<open>out = heading @ (CHR 0x0A # ''<div class="domain-sale-info">'')
          @ (concat (map (\<lambda>l. CHR 0x0A # l) (render_price sale_info))
          @ (concat (map (\<lambda>l. CHR 0x0A # l) (render_contact sale_info))
          @ (concat (map (\<lambda>l. CHR 0x0A # l) (render_url sale_info))
          @ (concat (map (\<lambda>l. CHR 0x0A # l) (render_expires sale_info))
          @ (CHR 0x0A # ''</div>'')))))\<close>
    unfolding out by (simp add: join_lines_def)
  show "markup Data out = sale_info_markup sale_info"
    unfolding eq sale_info_markup_def
    by (simp add: markup_domain [OF h] markup_price markup_contact markup_url markup_expires
        DQUOTE_def)
next
  show \<open>markup Data (render_error s) = ''<div class=""></div>''\<close>
    by (simp add: render_error_def DQUOTE_def)
qed


theorem html_escaped_output_witness:
  \<open>render_sale_info
      (Map.empty(''domain'' \<mapsto> Some ''<script>alert(1)</script>'',
                 ''url'' \<mapsto> Some ''x" onclick="alert(1)''))
    = Inr (join_lines
        [''<h2>Domain for Sale: &lt;script&gt;alert(1)&lt;/script&gt;</h2>'',
         ''<div class="domain-sale-info">'',
         ''<div class="sale-url"><strong>More Info:</strong> '' @
         ''<a href="x&quot; onclick=&quot;alert(1)" target="_blank" rel="noopener noreferrer">'' @
         ''x&quot; onclick=&quot;alert(1)</a></div>'',
         ''</div>''])
   \<and> markup Data (join_lines
        [''<h2>Domain for Sale: &lt;script&gt;alert(1)&lt;/script&gt;</h2>'',
         ''<div class="domain-sale-info">'',
         ''<div class="sale-url"><strong>More Info:</strong> '' @
         ''<a href="x&quot; onclick=&quot;alert(1)" target="_blank" rel="noopener noreferrer">'' @
         ''x&quot; onclick=&quot;alert(1)</a></div>'',
         ''</div>''])
    = ''<h2></h2><div class=""><div class=""><strong></strong><a href="" target="" rel=""></a></div></div>''\<close>
proof -
  define info :: sale_info where
    \<open>info = Map.empty(''domain'' \<mapsto> Some ''<script>alert(1)</script>'',
                      ''url'' \<mapsto> Some ''x" onclick="alert(1)'')\<close>
  define out where
    \<open>out = join_lines
        [''<h2>Domain for Sale: &lt;script&gt;alert(1)&lt;/script&gt;</h2>'',
         ''<div class="domain-sale-info">'',
         ''<div class="sale-url"><strong>More Info:</strong> '' @
         ''<a href="x&quot; onclick=&quot;alert(1)" target="_blank" rel="noopener noreferrer">'' @
         ''x&quot; onclick=&quot;alert(1)</a></div>'',
         ''</div>'']\<close>
  have r: "render_sale_info info = Inr out"
    unfolding info_def out_def by code_simp
  have m: \<open>sale_info_markup info
        = ''<h2></h2><div class=""><div class=""><strong></strong><a href="" target="" rel=""></a></div></div>''\<close>
    unfolding info_def by code_simp
  have "markup Data out = sale_info_markup info"
    using html_escaped_output [of "[]" info out] r by blast
  with r m show ?thesis
    unfolding info_def out_def by simp
qed





text \<open>
  The list behind \<^verbatim>\<open>source\<close> is the object stored in the DNS cache. With the RDAP check on and
  the RDAP status \<^verbatim>\<open>for-sale\<close>, the first call appends \<^verbatim>\<open>"rdap"\<close> to it, and the second call,
  served from the cache, appends \<^verbatim>\<open>"rdap"\<close> to the same object again.
\<close>

lemma shared_sources_list:
  "view_source
     (world (snd (get_domain_sale_status
        (example_env (Inr [[example_record]]) (Inr (PDict [(''status'', PList [PStr ''for-sale''])])) 0)
        initial_state ''example.com'' (Some \<lparr>enable_rdap_check = True, cache_ttl = 300, timeout = 5\<rparr>))))
     (SourceList 0) = Listed [''dns'', ''rdap'']
   \<and> view_source
     (world (snd (get_domain_sale_status
        (example_env (Inr [[example_record]]) (Inr (PDict [(''status'', PList [PStr ''for-sale''])])) 1)
        (snd (get_domain_sale_status
           (example_env (Inr [[example_record]]) (Inr (PDict [(''status'', PList [PStr ''for-sale''])])) 0)
           initial_state ''example.com'' (Some \<lparr>enable_rdap_check = True, cache_ttl = 300, timeout = 5\<rparr>)))
        ''example.com'' (Some \<lparr>enable_rdap_check = True, cache_ttl = 300, timeout = 5\<rparr>))))
     (SourceList 0) = Listed [''dns'', ''rdap'', ''rdap'']"
  by code_simp

text \<open>
  Claim C9, as amended. In a response with \<^verbatim>\<open>for_sale\<close> false, \<^verbatim>\<open>source\<close> is the scalar string
  \<^verbatim>\<open>"dns"\<close> (the default of the constructor, never replaced). In a response with \<^verbatim>\<open>for_sale\<close>
  true, \<^verbatim>\<open>source\<close> is a list of strings; when the call made the DNS lookup itself (the DNS cache
  had no live entry), the list is \<^verbatim>\<open>["dns"]\<close> with the RDAP check disabled and
  \<^verbatim>\<open>["dns", "rdap"]\<close> with it enabled.
\<close>

theorem source_shape:
  "(\<not> for_sale (fst (get_domain_sale_status env st d opt)) \<longrightarrow>
      view_source (world (snd (get_domain_sale_status env st d opt)))
        (source (fst (get_domain_sale_status env st d opt))) = Scalar ''dns'')
   \<and> (for_sale (fst (get_domain_sale_status env st d opt)) \<longrightarrow>
        (\<exists>l. view_source (world (snd (get_domain_sale_status env st d opt)))
               (source (fst (get_domain_sale_status env st d opt))) = Listed l)
        \<and> (fst (cache_get (dns_cache (update_cache_ttl (effective_options opt) st)) (''dns:'' @ d)
                 (now_dns_get env)) = None \<longrightarrow>
             view_source (world (snd (get_domain_sale_status env st d opt)))
               (source (fst (get_domain_sale_status env st d opt)))
             = Listed (if enable_rdap_check (effective_options opt) then [''dns'', ''rdap'']
                       else [''dns''])))"
proof (cases rule: status_cases [of env d opt st])
  case (lookup_raises e st1)
  then show ?thesis by (simp add: view_source_def)
next
  case (no_record txts src st1 rd errs)
  then show ?thesis by (simp add: view_source_def)
next
  case (dns_only txts src st1 r errs)
  have "fst (cache_get (dns_cache (update_cache_ttl (effective_options opt) st)) (''dns:'' @ d)
                 (now_dns_get env)) = None \<Longrightarrow> heap (world st1) src = [''dns'']"
    using lookup_txt_records_miss_returns [OF _ dns_only(1)] by simp
  then show ?thesis
    using dns_only(4,5) by (simp add: view_source_def)
next
  case (rdap_true txts src st1 r errs st2)
  have "fst (cache_get (dns_cache (update_cache_ttl (effective_options opt) st)) (''dns:'' @ d)
                 (now_dns_get env)) = None \<Longrightarrow> heap (world st2) src = [''dns'']"
    using lookup_txt_records_miss_returns [OF _ rdap_true(1)]
      check_rdap_status_world(1) [OF rdap_true(5)] by simp
  then show ?thesis
    using rdap_true(4,6) by (simp add: view_source_def list_append_heap)
next
  case (rdap_false txts src st1 r errs st2)
  then show ?thesis by (simp add: view_source_def)
next
  case (rdap_raises txts src st1 r errs st2 e)
  then show ?thesis by (simp add: view_source_def)
next
  case (rdap_overflow txts src st1 r errs st2)
  then show ?thesis by (simp add: view_source_def)
qed

theorem source_shape_witness:
  "view_source (world (snd (get_domain_sale_status (example_env (Inl NoAnswer) (Inl RDAPError) 0)
        initial_state ''example.com'' None)))
     (source (fst (get_domain_sale_status (example_env (Inl NoAnswer) (Inl RDAPError) 0)
        initial_state ''example.com'' None))) = Scalar ''dns''
   \<and> view_source (world (snd (get_domain_sale_status
        (example_env (Inr [[example_record]]) (Inr (PDict [(''status'', PList [PStr ''for-sale''])])) 0)
        initial_state ''example.com'' (Some \<lparr>enable_rdap_check = True, cache_ttl = 300, timeout = 5\<rparr>))))
     (source (fst (get_domain_sale_status
        (example_env (Inr [[example_record]]) (Inr (PDict [(''status'', PList [PStr ''for-sale''])])) 0)
        initial_state ''example.com'' (Some \<lparr>enable_rdap_check = True, cache_ttl = 300, timeout = 5\<rparr>))))
     = Listed [''dns'', ''rdap'']"
proof -
  define envN where "envN = example_env (Inl NoAnswer) (Inl RDAPError) 0"
  define envT where
    "envT = example_env (Inr [[example_record]]) (Inr (PDict [(''status'', PList [PStr ''for-sale''])])) 0"
  define optT where "optT = Some \<lparr>enable_rdap_check = True, cache_ttl = 300, timeout = 5\<rparr>"
  define opt0 where "opt0 = (None :: DomainSaleOptions option)"
  have n: "\<not> for_sale (fst (get_domain_sale_status envN initial_state ''example.com'' opt0))"
    unfolding envN_def opt0_def by code_simp
  have t: "for_sale (fst (get_domain_sale_status envT initial_state ''example.com'' optT))"
    unfolding envT_def optT_def by code_simp
  have m: "fst (cache_get (dns_cache (update_cache_ttl (effective_options optT) initial_state))
                 (''dns:'' @ ''example.com'') (now_dns_get envT)) = None"
    unfolding envT_def optT_def by code_simp
  have e: "enable_rdap_check (effective_options optT)"
    unfolding optT_def by code_simp
  note N = source_shape [of envN initial_state "''example.com''" opt0, THEN conjunct1, rule_format, OF n]
  note T = source_shape [of envT initial_state "''example.com''" optT, THEN conjunct2, rule_format,
      OF t, THEN conjunct2, rule_format, OF m]
  from N T e show ?thesis
    unfolding envN_def envT_def optT_def opt0_def by simp
qed

text \<open>
  The claim as it was stated fails: for a domain without a record the response is not for
  sale and its \<^verbatim>\<open>source\<close> is the scalar string \<^verbatim>\<open>"dns"\<close>, not a list.
\<close>

theorem source_shape_counterexample:
  "\<not> for_sale (fst (get_domain_sale_status (example_env (Inl NXDOMAIN) (Inl RDAPError) 0)
        initial_state ''example.com'' None))
   \<and> source (fst (get_domain_sale_status (example_env (Inl NXDOMAIN) (Inl RDAPError) 0)
        initial_state ''example.com'' None)) = SourceStr ''dns''"
  by code_simp

end
